theory Spec2Isabelle
  imports Complex_Main
begin

section \<open>Tensors\<close>

text \<open>
  The sources compute on torch tensors of floats. A one-axis tensor is a list of reals,
  a two-axis tensor a list of rows; floating-point rounding, infinities and nan are not
  represented, so every statement below is about the real-number reading of the code.
  The exceptions the code can raise are values: \<open>RuntimeError\<close> is what torch raises
  on incompatible shapes, \<open>ValueError\<close> is raised by the sources themselves,
  \<open>IndexError\<close> by an index out of range, and \<open>ShapeError\<close> is the failure the
  trajectory batch reports when it has no last step.
\<close>

type_synonym tensor = "real list"

datatype error = RuntimeError | ValueError | IndexError | ShapeError

definition ebind :: "error + 'a \<Rightarrow> ('a \<Rightarrow> error + 'b) \<Rightarrow> error + 'b" where
  "ebind m f = (case m of Inl e \<Rightarrow> Inl e | Inr x \<Rightarrow> f x)"

fun sequence_e :: "(error + 'a) list \<Rightarrow> error + 'a list" where
  "sequence_e [] = Inr []"
| "sequence_e (m # ms) = ebind m (\<lambda>x. ebind (sequence_e ms) (\<lambda>xs. Inr (x # xs)))"

text \<open>
  Broadcasting along one axis, as torch does for \<open>a * b\<close>, \<open>a - b\<close>, \<open>a + b\<close>:
  sizes must agree or one of them must be 1.
\<close>

definition bcast2 :: "('a \<Rightarrow> 'b \<Rightarrow> 'c) \<Rightarrow> 'a list \<Rightarrow> 'b list \<Rightarrow> error + 'c list" where
  "bcast2 f xs ys =
     (if length xs = length ys then Inr (map2 f xs ys)
      else if length ys = 1 then Inr (map (\<lambda>x. f x (hd ys)) xs)
      else if length xs = 1 then Inr (map (f (hd xs)) ys)
      else Inl RuntimeError)"

text \<open>
  An in-place operation (\<open>a += b\<close>, \<open>a.add_(b)\<close>, \<open>a.copy_(b)\<close>) keeps the shape of
  \<open>a\<close>: only the right operand may be broadcast.
\<close>

definition inplace2 :: "('a \<Rightarrow> 'b \<Rightarrow> 'a) \<Rightarrow> 'a list \<Rightarrow> 'b list \<Rightarrow> error + 'a list" where
  "inplace2 f xs ys =
     (if length xs = length ys then Inr (map2 f xs ys)
      else if length ys = 1 then Inr (map (\<lambda>x. f x (hd ys)) xs)
      else Inl RuntimeError)"

text \<open>Broadcasting along an outer axis whose elements are themselves combined with a
  fallible operation (the inner axes).\<close>

definition bcastE :: "('a \<Rightarrow> 'b \<Rightarrow> error + 'c) \<Rightarrow> 'a list \<Rightarrow> 'b list \<Rightarrow> error + 'c list" where
  "bcastE f xs ys = ebind (bcast2 f xs ys) sequence_e"

text \<open>\<open>t.mean()\<close>. On an empty tensor torch returns nan; the statements that use the
  mean assume a non-empty tensor.\<close>

definition mean :: "tensor \<Rightarrow> real" where
  "mean xs = sum_list xs / real (length xs)"

section \<open>nn.py: synchronising a live and a target network\<close>

text \<open>
  A \<open>ParametricFunction\<close> is seen here through \<open>parameters()\<close> and \<open>buffers()\<close>:
  two lists of tensors, each tensor a list of reals whose length is its shape.
\<close>

record ParametricFunction =
  parameters :: "tensor list"
  buffers :: "tensor list"

text \<open>\<open>target.copy_(src)\<close>: the source is broadcast to the shape of the target.\<close>

definition tensor_copy :: "tensor \<Rightarrow> tensor \<Rightarrow> error + tensor" where
  "tensor_copy target_buf buf = inplace2 (\<lambda>t b. b) target_buf buf"

text \<open>\<open>target_param.add_(1 - tau, param - target_param)\<close>: the difference is an
  ordinary broadcast, the scaled sum is in place.\<close>

definition tensor_add :: "real \<Rightarrow> tensor \<Rightarrow> tensor \<Rightarrow> error + tensor" where
  "tensor_add alpha target_param other = inplace2 (\<lambda>t d. t + alpha * d) target_param other"

text \<open>
  The loops \<open>for target_x, x in zip(target_net.xs(), net.xs())\<close>: \<open>zip\<close> stops at the
  shorter list, so target tensors beyond the live network's count are left as they are.
\<close>

fun zip_update :: "('a \<Rightarrow> 'b \<Rightarrow> error + 'a) \<Rightarrow> 'a list \<Rightarrow> 'b list \<Rightarrow> error + 'a list" where
  "zip_update f (t # ts) (p # ps) =
     ebind (f t p) (\<lambda>t'. ebind (zip_update f ts ps) (\<lambda>ts'. Inr (t' # ts')))"
| "zip_update f ts ps = Inr ts"

definition copy_buffer :: "ParametricFunction \<Rightarrow> ParametricFunction \<Rightarrow> error + ParametricFunction" where
  "copy_buffer net target_net =
     ebind (zip_update tensor_copy (buffers target_net) (buffers net))
       (\<lambda>bs. Inr (target_net\<lparr>buffers := bs\<rparr>))"

definition soft_update :: "ParametricFunction \<Rightarrow> ParametricFunction \<Rightarrow> real \<Rightarrow> error + ParametricFunction" where
  "soft_update net target_net tau =
     ebind (copy_buffer net target_net) (\<lambda>target_net'.
     ebind (zip_update
              (\<lambda>target_param param.
                 ebind (bcast2 (\<lambda>p t. p - t) param target_param) (tensor_add (1 - tau) target_param))
              (parameters target_net') (parameters net))
       (\<lambda>ps. Inr (target_net'\<lparr>parameters := ps\<rparr>)))"


text \<open>Two networks have the same topology when their parameters and their buffers agree
  in number and in shape.\<close>

definition same_topology :: "ParametricFunction \<Rightarrow> ParametricFunction \<Rightarrow> bool" where
  "same_topology net target_net =
     (map length (parameters net) = map length (parameters target_net) \<and>
      map length (buffers net) = map length (buffers target_net))"

text \<open>The pairs of tensors that \<open>zip\<close> puts together can be synchronised in place when
  each live tensor has the target's size or size 1.\<close>

definition zip_compatible :: "tensor list \<Rightarrow> tensor list \<Rightarrow> bool" where
  "zip_compatible ts ps = list_all (\<lambda>(t, p). length p = length t \<or> length p = 1) (zip ts ps)"

text \<open>What a pair of compatible tensors yields: the live tensor, broadcast to the target's
  size, copied or blended into the target.\<close>

definition copy_val :: "tensor \<Rightarrow> tensor \<Rightarrow> tensor" where
  "copy_val t b = (if length b = length t then b else replicate (length t) (hd b))"

definition blend :: "real \<Rightarrow> tensor \<Rightarrow> tensor \<Rightarrow> tensor" where
  "blend \<tau> t p = map2 (\<lambda>t p. \<tau> * t + (1 - \<tau>) * p) t
                     (if length p = length t then p else replicate (length t) (hd p))"

subsection \<open>gmm_loss\<close>

text \<open>
  \<open>Normal(loc, scale).log_prob(value)\<close> of torch, elementwise:
  \<open>-((value - loc) ** 2) / (2 * scale ** 2) - log(scale) - log(sqrt(2 * pi))\<close>,
  and its \<open>entropy()\<close>, \<open>0.5 + 0.5 * log(2 * pi) + log(scale)\<close>.
\<close>

definition normal_log_prob :: "real \<Rightarrow> real \<Rightarrow> real \<Rightarrow> real" where
  "normal_log_prob loc scale v = - ((v - loc)\<^sup>2) / (2 * scale\<^sup>2) - ln scale - ln (sqrt (2 * pi))"

definition normal_entropy :: "real \<Rightarrow> real" where
  "normal_entropy scale = 1 / 2 + 1 / 2 * ln (2 * pi) + ln scale"

text \<open>Elementwise operations on tensors of two and three axes, broadcasting on each.\<close>

definition bcast2d :: "('a \<Rightarrow> 'b \<Rightarrow> 'c) \<Rightarrow> 'a list list \<Rightarrow> 'b list list \<Rightarrow> error + 'c list list" where
  "bcast2d f = bcastE (bcast2 f)"

definition bcast3d :: "('a \<Rightarrow> 'b \<Rightarrow> 'c) \<Rightarrow> 'a list list list \<Rightarrow> 'b list list list \<Rightarrow> error + 'c list list list" where
  "bcast3d f = bcastE (bcast2d f)"

text \<open>\<open>torch.max(t, dim=-1, keepdim=True)[0]\<close> on one row; torch refuses an empty axis.\<close>

definition max_keepdim :: "tensor \<Rightarrow> error + tensor" where
  "max_keepdim row = (case row of [] \<Rightarrow> Inl RuntimeError | x # xs \<Rightarrow> Inr [fold max xs x])"

text \<open>\<open>t[..., i]\<close> on one row.\<close>

definition index_last :: "tensor \<Rightarrow> nat \<Rightarrow> error + real" where
  "index_last row i = (if i < length row then Inr (row ! i) else Inl IndexError)"

text \<open>The result of \<open>gmm_loss\<close> is a scalar when \<open>reduce\<close> is set and a tensor with one
  entry per item otherwise.\<close>

datatype gmm_result = Scalar real | PerItem tensor

text \<open>
  \<open>batch\<close> has the axes (bs, fs), \<open>mus\<close> and \<open>sigmas\<close> (bs, gs, fs), \<open>logpi\<close>
  (bs, gs): one batch axis. The correction branch rebuilds each row of \<open>g_probs\<close> from
  its entries 0 and 1.
\<close>

definition gmm_loss ::
  "tensor list \<Rightarrow> tensor list list \<Rightarrow> tensor list list \<Rightarrow> tensor list \<Rightarrow> real option \<Rightarrow> bool
     \<Rightarrow> error + gmm_result" where
  "gmm_loss batch mus sigmas logpi correction_factor reduce =
     (let batch' = map (\<lambda>x. [x]) batch in
      ebind (bcast3d Pair mus sigmas) (\<lambda>normal_dist.
      ebind (bcast3d (\<lambda>(loc, scale) v. normal_log_prob loc scale v) normal_dist batch') (\<lambda>g_log_probs.
      ebind (bcast2d (+) logpi (map (map sum_list) g_log_probs)) (\<lambda>g_log_probs.
      ebind (sequence_e (map max_keepdim g_log_probs)) (\<lambda>max_log_probs.
      ebind (bcast2d (-) g_log_probs max_log_probs) (\<lambda>g_log_probs.
      let g_probs = map (map exp) g_log_probs in
      ebind (case correction_factor of
               None \<Rightarrow> Inr g_probs
             | Some cf \<Rightarrow>
                 sequence_e (map (\<lambda>row.
                   ebind (index_last row 0) (\<lambda>g0.
                   ebind (index_last row 1) (\<lambda>g1.
                   let mask = (if g0 = 1 then 1 else 0) in
                   Inr [mask * g0 * cf + (1 - mask) * g0, g1]))) g_probs)) (\<lambda>g_probs.
      let probs = map sum_list g_probs in
      ebind (bcast2 (+) (concat max_log_probs) (map ln probs)) (\<lambda>log_prob.
      if reduce then Inr (Scalar (- mean log_prob))
      else Inr (PerItem (map uminus log_prob))))))))))"

text \<open>
  The shapes \<open>gmm_loss\<close> is written for: one row of \<open>mus\<close>, \<open>sigmas\<close> and
  \<open>logpi\<close> per item of the batch, as many components in \<open>mus\<close> and \<open>sigmas\<close> as
  weights in \<open>logpi\<close>, and as many features in every component as in the item.
\<close>

definition gmm_shapes :: "tensor list \<Rightarrow> tensor list list \<Rightarrow> tensor list list \<Rightarrow> tensor list \<Rightarrow> bool" where
  "gmm_shapes batch mus sigmas logpi =
     (length mus = length batch \<and> length sigmas = length batch \<and> length logpi = length batch \<and>
      (\<forall>i<length batch.
         length (mus ! i) = length (logpi ! i) \<and> length (sigmas ! i) = length (logpi ! i) \<and>
         (\<forall>k<length (logpi ! i).
            length (mus ! i ! k) = length (batch ! i) \<and>
            length (sigmas ! i ! k) = length (batch ! i))))"

text \<open>The log-probabilities of one item under each component:
  \<open>logpi k + sum over the features of log N(x | mu k, sigma k)\<close>.\<close>

definition component_log_probs :: "tensor \<Rightarrow> tensor list \<Rightarrow> tensor list \<Rightarrow> tensor \<Rightarrow> tensor" where
  "component_log_probs x mu sigma lpi =
     map (\<lambda>k. lpi ! k + (\<Sum>f<length x. normal_log_prob (mu ! k ! f) (sigma ! k ! f) (x ! f)))
       [0..<length lpi]"

text \<open>The maximum of a row, the row of probabilities after the correction branch, and the
  log-probability the code assigns to one item from its component log-probabilities.\<close>

definition rowmax :: "tensor \<Rightarrow> real" where
  "rowmax row = fold max (tl row) (hd row)"

definition corrected :: "real option \<Rightarrow> tensor \<Rightarrow> tensor" where
  "corrected correction_factor p =
     (case correction_factor of
        None \<Rightarrow> p
      | Some cf \<Rightarrow> [(if p ! 0 = 1 then 1 else 0) * p ! 0 * cf + (1 - (if p ! 0 = 1 then 1 else 0)) * p ! 0,
                   p ! 1])"

definition item_log_prob :: "real option \<Rightarrow> tensor \<Rightarrow> real" where
  "item_log_prob correction_factor c =
     rowmax c + ln (sum_list (corrected correction_factor (map (\<lambda>g. exp (g - rowmax c)) c)))"

section \<open>a2cvalue.py: the value critic\<close>

text \<open>
  \<open>BatchTraj\<close> is imported from \<open>memory.memorytrajectory\<close>, which is not among the
  sources. The record holds what the critic and the actors read: \<open>obs\<close>, \<open>actions\<close>,
  the reward and done tensors with the axes (batch, time), and the attribute \<open>length\<close>.
  The done flags are numbers (the code computes \<open>1 - done\<close>): 1 for a terminal
  transition, 0 otherwise.
\<close>

record ('obs, 'act) BatchTraj =
  obs :: 'obs
  actions :: 'act
  rewards :: "tensor list"
  dones :: "tensor list"
  traj_length :: nat

text \<open>
  Modelled from the spec: \<open>BatchTraj.splitlast\<close>, absent from the sources. It returns the
  batch without its last step together with the last observation, action, reward and done
  flag of every episode, and fails with \<open>ShapeError\<close> when the length is below 1.
\<close>

definition splitlast ::
  "('o list list, 'a list list) BatchTraj \<Rightarrow>
     error + (('o list list, 'a list list) BatchTraj \<times> 'o list \<times> 'a list \<times> tensor \<times> tensor)" where
  "splitlast traj =
     (if traj_length traj < 1 then Inl ShapeError
      else Inr (\<lparr>obs = map butlast (obs traj), actions = map butlast (actions traj),
                  rewards = map butlast (rewards traj), dones = map butlast (dones traj),
                  traj_length = traj_length traj - 1\<rparr>,
                map last (obs traj), map last (actions traj),
                map last (rewards traj), map last (dones traj)))"

text \<open>
  The critic multiplies the truncated rewards by \<open>length\<close> discounts, so a batch it can
  process holds \<open>length\<close> steps before the last one: every episode has \<open>length + 1\<close>
  entries, and all tensors have one row per episode.
\<close>

definition wf_traj :: "('o list list, 'a list list) BatchTraj \<Rightarrow> bool" where
  "wf_traj traj =
     (list_all (\<lambda>row. length row = Suc (traj_length traj)) (obs traj) \<and>
      list_all (\<lambda>row. length row = Suc (traj_length traj)) (rewards traj) \<and>
      list_all (\<lambda>row. length row = Suc (traj_length traj)) (dones traj) \<and>
      length (rewards traj) = length (obs traj) \<and>
      length (dones traj) = length (obs traj))"

text \<open>
  The state of \<open>A2CValue\<close>: the live and the target value function and the smoothing
  factor that \<open>optimize\<close> reads as \<open>self._tau\<close> (the constructor receives it as
  \<open>tau\<close>). \<open>A2CValueCritic\<close> owns one \<open>A2CValue\<close> and the discount factor.
\<close>

record A2CValue =
  v_function :: ParametricFunction
  target_v_function :: ParametricFunction
  tau :: real

record A2CValueCritic =
  a2cvalue :: A2CValue
  gamma :: real

text \<open>
  The network's forward pass (an external collaborator) is the parameter \<open>forward\<close>: it maps
  the parameters and a batch of observations to one value per observation. The live and
  the target network share it, the target being a deep copy of the live one.
\<close>

definition A2CValue_value ::
  "(ParametricFunction \<Rightarrow> 'o list \<Rightarrow> tensor) \<Rightarrow> A2CValue \<Rightarrow> 'o list \<Rightarrow> bool \<Rightarrow> tensor" where
  "A2CValue_value forward self ob target =
     (if target then forward (target_v_function self) ob
      else forward (v_function self) ob)"

definition critic ::
  "(ParametricFunction \<Rightarrow> 'o list \<Rightarrow> tensor) \<Rightarrow> A2CValueCritic \<Rightarrow>
     ('o list list, 'a list list) BatchTraj \<Rightarrow> bool \<Rightarrow> error + tensor" where
  "critic forward self traj target =
     (let length = traj_length traj in
      ebind (splitlast traj) (\<lambda>(trunctraj, lastobs, lastaction, lastreward, done).
      let discounts = map (\<lambda>t. gamma self ^ t) [0..<length] in
      ebind (sequence_e (map (\<lambda>row. bcast2 (*) row discounts) (rewards trunctraj)))
        (\<lambda>discounted_rewards.
      let critic = map sum_list discounted_rewards in
      ebind (bcast2 (*) (map (\<lambda>d. (1 - d) * gamma self ^ length) done)
               (A2CValue_value forward (a2cvalue self) lastobs target)) (\<lambda>bootstrap.
      inplace2 (+) critic bootstrap))))"

text \<open>
  The optimizer (an external collaborator) is the parameter \<open>step\<close>: given the loss as a
  computation on the live network and the live network, it returns the live network after
  \<open>zero_grad()\<close>, \<open>backward()\<close> and \<open>step()\<close>. A tensor that the code detaches enters
  the loss as a value that does not depend on the network.
\<close>

type_synonym optimizer =
  "(ParametricFunction \<Rightarrow> error + real) \<Rightarrow> ParametricFunction \<Rightarrow> ParametricFunction"

definition squared_error :: "tensor \<Rightarrow> tensor \<Rightarrow> error + tensor" where
  "squared_error v expected_v = bcast2 (\<lambda>a b. (a - b)\<^sup>2) v expected_v"

definition A2CValue_optimize ::
  "optimizer \<Rightarrow> (ParametricFunction \<Rightarrow> 'o list \<Rightarrow> tensor) \<Rightarrow> A2CValue \<Rightarrow> 'o list \<Rightarrow> tensor
     \<Rightarrow> error + (tensor \<times> A2CValue)" where
  "A2CValue_optimize step forward self ob expected_v =
     (let v = forward (v_function self) ob in
      ebind (squared_error v expected_v) (\<lambda>v_loss.
      let net = step (\<lambda>net. ebind (squared_error (forward net ob) expected_v)
                                (\<lambda>l. Inr (mean l))) (v_function self) in
      ebind (soft_update net (target_v_function self) (tau self)) (\<lambda>target_net.
      Inr (v_loss, self\<lparr>v_function := net, target_v_function := target_net\<rparr>))))"

text \<open>\<open>traj.obs[:, 0]\<close>: the first observation of every episode. The optimizer that
  \<open>A2CValueCritic.optimize\<close> calls as \<open>self._optimizer\<close> is the parameter \<open>step\<close>,
  acting on the live value function.\<close>

definition first_obs :: "'o list list \<Rightarrow> error + 'o list" where
  "first_obs rows = sequence_e (map (\<lambda>row. case row of [] \<Rightarrow> Inl IndexError | x # xs \<Rightarrow> Inr x) rows)"

definition A2CValueCritic_optimize ::
  "optimizer \<Rightarrow> (ParametricFunction \<Rightarrow> 'o list \<Rightarrow> tensor) \<Rightarrow> A2CValueCritic \<Rightarrow>
     ('o list list, 'a list list) BatchTraj \<Rightarrow> error + (real \<times> A2CValueCritic)" where
  "A2CValueCritic_optimize step forward self traj =
     ebind (critic forward self traj True) (\<lambda>critic_detached.
     ebind (first_obs (obs traj)) (\<lambda>obs0.
     let v = A2CValue_value forward (a2cvalue self) obs0 False in
     ebind (squared_error v critic_detached) (\<lambda>l.
     let loss = mean l;
         net = step (\<lambda>net. ebind (squared_error (forward net obs0) critic_detached)
                                (\<lambda>l. Inr (mean l))) (v_function (a2cvalue self)) in
     Inr (loss, self\<lparr>a2cvalue := (a2cvalue self)\<lparr>v_function := net\<rparr>\<rparr>))))"

section \<open>ppo_actor.py: the clipped loss\<close>

text \<open>
  A torch \<open>Distribution\<close> is seen through \<open>log_prob\<close> and \<open>entropy()\<close>;
  \<open>kl_divergence\<close> is a parameter. \<open>np.log\<close> is the real logarithm: the bounds are
  meaningful for \<open>eps_clamp\<close> strictly between -1 and 1.
\<close>

record 'act Distribution =
  log_prob :: "'act \<Rightarrow> tensor"
  entropy :: tensor

definition clamp_max :: "tensor \<Rightarrow> real \<Rightarrow> tensor" where
  "clamp_max t m = map (\<lambda>x. min x m) t"

definition clamp_min :: "tensor \<Rightarrow> real \<Rightarrow> tensor" where
  "clamp_min t m = map (\<lambda>x. max x m) t"

definition where_t :: "bool list \<Rightarrow> tensor \<Rightarrow> tensor \<Rightarrow> error + tensor" where
  "where_t cond a b =
     ebind (bcast2 Pair a b) (\<lambda>ab. bcast2 (\<lambda>c (x, y). if c then x else y) cond ab)"

definition loss ::
  "('act Distribution \<Rightarrow> 'act Distribution \<Rightarrow> tensor) \<Rightarrow> 'act Distribution \<Rightarrow> 'act \<Rightarrow> tensor
     \<Rightarrow> real \<Rightarrow> real \<Rightarrow> real \<Rightarrow> tensor \<Rightarrow> 'act Distribution option \<Rightarrow> error + real" where
  "loss kl_divergence distr acts critic_value c_entropy eps_clamp c_kl old_logp old_distr =
     (let logp_action = log_prob distr acts in
      ebind (bcast2 (-) logp_action old_logp) (\<lambda>logr.
      ebind (where_t (map (\<lambda>v. v > 0) critic_value)
               (clamp_max logr (ln (1 + eps_clamp)))
               (clamp_min logr (ln (1 - eps_clamp)))) (\<lambda>w.
      let r_clipped = map exp w in
      ebind (bcast2 (\<lambda>r v. - r * v) r_clipped critic_value) (\<lambda>loss0.
      ebind (if c_entropy \<noteq> 0
             then inplace2 (-) loss0 (map (\<lambda>h. c_entropy * h) (entropy distr))
             else Inr loss0) (\<lambda>loss1.
      ebind (if c_kl \<noteq> 0
             then (case old_distr of
                     None \<Rightarrow> Inl ValueError
                   | Some od \<Rightarrow> inplace2 (+) loss1 (map (\<lambda>k. c_kl * k) (kl_divergence od distr)))
             else Inr loss1) (\<lambda>loss2.
      Inr (mean loss2)))))))"

text \<open>The loss before the entropy and the divergence terms, element by element, in terms
  of the log-ratio and the advantage.\<close>

definition clipped_loss :: "real \<Rightarrow> tensor \<Rightarrow> tensor \<Rightarrow> tensor" where
  "clipped_loss eps logr adv =
     map2 (\<lambda>l a. - (exp (if a > 0 then min l (ln (1 + eps)) else max l (ln (1 - eps))) * a)) logr adv"

section \<open>a2cactor.py: the A2C actors\<close>

text \<open>
  The policy function (an external collaborator) is a parameter: for the continuous actor
  it maps the network and the observations to \<open>(mu, sigma)\<close>, two tensors with the axes
  (sample, action); for the discrete actor to the logits, with the same axes.
\<close>

record A2CActor =
  policy_function :: ParametricFunction
  c_entropy :: real

text \<open>\<open>Normal(mu, sigma)\<close>: location and scale are broadcast against each other.\<close>

definition Normal :: "tensor list \<Rightarrow> tensor list \<Rightarrow> error + (real \<times> real) list list" where
  "Normal mu sigma = bcast2d Pair mu sigma"

text \<open>The loss whose mean \<open>A2CActorContinuous.optimize\<close> differentiates.\<close>

definition A2CActorContinuous_loss ::
  "(ParametricFunction \<Rightarrow> 'obs \<Rightarrow> tensor list \<times> tensor list) \<Rightarrow> real \<Rightarrow>
     ('obs, tensor list) BatchTraj \<Rightarrow> tensor \<Rightarrow> ParametricFunction \<Rightarrow> error + real" where
  "A2CActorContinuous_loss policy c_ent traj critic_value net =
     (let action = actions traj;
          (mu, sigma) = policy net (obs traj) in
      ebind (Normal mu sigma) (\<lambda>distr.
      ebind (bcast2d (\<lambda>(loc, scale) a. normal_log_prob loc scale a) distr action) (\<lambda>lp.
      let logp_action = map sum_list lp;
          entropy = map (\<lambda>row. sum_list (map (\<lambda>(loc, scale). normal_entropy scale) row)) distr in
      ebind (bcast2 (\<lambda>l v. - l * v) logp_action critic_value) (\<lambda>weighted.
      let loss_critic = mean weighted;
          loss = map (\<lambda>h. loss_critic - c_ent * h) entropy in
      Inr (mean loss)))))"

definition A2CActorContinuous_optimize ::
  "optimizer \<Rightarrow> (ParametricFunction \<Rightarrow> 'obs \<Rightarrow> tensor list \<times> tensor list) \<Rightarrow> A2CActor \<Rightarrow>
     ('obs, tensor list) BatchTraj \<Rightarrow> tensor \<Rightarrow> error + A2CActor" where
  "A2CActorContinuous_optimize step policy self traj critic_value =
     ebind (A2CActorContinuous_loss policy (c_entropy self) traj critic_value (policy_function self))
       (\<lambda>l. Inr (self\<lparr>policy_function :=
                step (A2CActorContinuous_loss policy (c_entropy self) traj critic_value)
                  (policy_function self)\<rparr>))"

text \<open>
  \<open>Categorical(logits=logits)\<close> on one row: \<open>log_prob(a)\<close> is the normalised logit of
  action \<open>a\<close>, \<open>entropy()\<close> is minus the sum of \<open>p * log p\<close>.
\<close>

definition log_softmax :: "tensor \<Rightarrow> tensor" where
  "log_softmax logits = map (\<lambda>l. l - ln (sum_list (map exp logits))) logits"

definition categorical_log_prob :: "tensor \<Rightarrow> nat \<Rightarrow> error + real" where
  "categorical_log_prob logits a =
     (if a < length logits then Inr (log_softmax logits ! a) else Inl RuntimeError)"

definition categorical_entropy :: "tensor \<Rightarrow> real" where
  "categorical_entropy logits = - sum_list (map (\<lambda>l. exp l * l) (log_softmax logits))"

text \<open>The loss whose mean \<open>A2CActorDiscrete.optimize\<close> differentiates.\<close>

definition A2CActorDiscrete_loss ::
  "(ParametricFunction \<Rightarrow> 'obs \<Rightarrow> tensor list) \<Rightarrow> real \<Rightarrow>
     ('obs, nat list) BatchTraj \<Rightarrow> tensor \<Rightarrow> ParametricFunction \<Rightarrow> error + real" where
  "A2CActorDiscrete_loss policy c_ent traj critic_value net =
     (let actions = actions traj;
          logits = policy net (obs traj) in
      ebind (bcastE categorical_log_prob logits actions) (\<lambda>logp_actions.
      let entropy = map categorical_entropy logits in
      ebind (bcast2 (\<lambda>l v. - l * v) logp_actions critic_value) (\<lambda>weighted.
      ebind (bcast2 (\<lambda>w h. w - c_ent * h) weighted entropy) (\<lambda>loss.
      Inr (mean loss)))))"

definition A2CActorDiscrete_optimize ::
  "optimizer \<Rightarrow> (ParametricFunction \<Rightarrow> 'obs \<Rightarrow> tensor list) \<Rightarrow> A2CActor \<Rightarrow>
     ('obs, nat list) BatchTraj \<Rightarrow> tensor \<Rightarrow> error + A2CActor" where
  "A2CActorDiscrete_optimize step policy self traj critic_value =
     ebind (A2CActorDiscrete_loss policy (c_entropy self) traj critic_value (policy_function self))
       (\<lambda>l. Inr (self\<lparr>policy_function :=
                step (A2CActorDiscrete_loss policy (c_entropy self) traj critic_value)
                  (policy_function self)\<rparr>))"

section \<open>Basic facts\<close>

lemma ebind_Inr [simp]: "ebind (Inr x) f = f x"
  by (simp add: ebind_def)

lemma ebind_Inl [simp]: "ebind (Inl e) f = Inl e"
  by (simp add: ebind_def)

lemma bcast2_same [simp]: "length xs = length ys \<Longrightarrow> bcast2 f xs ys = Inr (map2 f xs ys)"
  by (simp add: bcast2_def)

lemma inplace2_same [simp]: "length xs = length ys \<Longrightarrow> inplace2 f xs ys = Inr (map2 f xs ys)"
  by (simp add: inplace2_def)

lemma zip_update_same:
  assumes "length ts = length ps"
    and "\<And>t p. (t, p) \<in> set (zip ts ps) \<Longrightarrow> f t p = Inr (g t p)"
  shows "zip_update f ts ps = Inr (map2 g ts ps)"
  using assms
proof (induction ts ps rule: list_induct2)
  case Nil
  show ?case by simp
next
  case (Cons t ts p ps)
  have "f t p = Inr (g t p)" using Cons.prems by simp
  moreover have "zip_update f ts ps = Inr (map2 g ts ps)"
    using Cons.IH Cons.prems by simp
  ultimately show ?case by simp
qed

lemma map_length_zipD:
  assumes "map length xs = map length ys" and "(x, y) \<in> set (zip xs ys)"
  shows "length x = length y"
proof -
  from assms(2) obtain i where i: "i < length xs" "i < length ys" "xs ! i = x" "ys ! i = y"
    by (auto simp: set_zip)
  have "map length xs ! i = map length ys ! i" using assms(1) by simp
  with i show ?thesis by simp
qed

lemma copy_same: "length t = length b \<Longrightarrow> tensor_copy t b = Inr b"
  by (simp add: tensor_copy_def case_prod_unfold)

section \<open>Synchronisation of the target network\<close>


lemma zip_update_char:
  assumes "\<And>t p. f t p = (if c t p then Inr (g t p) else Inl RuntimeError)"
  shows "zip_update f ts ps =
           (if list_all (\<lambda>(t, p). c t p) (zip ts ps)
            then Inr (map2 g ts ps @ drop (length ps) ts) else Inl RuntimeError)"
proof (induction ts arbitrary: ps)
  case Nil
  show ?case by simp
next
  case (Cons t ts)
  show ?case
  proof (cases ps)
    case Nil
    then show ?thesis by simp
  next
    case (Cons p ps')
    then show ?thesis using Cons.IH[of ps'] by (simp add: assms)
  qed
qed

lemma tensor_copy_char:
  "tensor_copy t b =
     (if length b = length t \<or> length b = 1
      then Inr (if length b = length t then b else replicate (length t) (hd b))
      else Inl RuntimeError)"
  by (auto simp: tensor_copy_def inplace2_def case_prod_unfold map_replicate_const)

lemma blend_real: "x + (1 - k) * (y - x) = k * x + (1 - k) * (y::real)"
  by algebra

lemma blend_same:
  assumes "length t = length (p::tensor)"
  shows "map2 (\<lambda>t d. t + (1 - \<tau>) * d) t (map2 (\<lambda>p t. p - t) p t)
        = map2 (\<lambda>t p. \<tau> * t + (1 - \<tau>) * p) t p"
  using assms
proof (induction t p rule: list_induct2)
  case Nil
  show ?case by simp
next
  case (Cons x xs y ys)
  have "x + (1 - \<tau>) * (y - x) = \<tau> * x + (1 - \<tau>) * y" by (rule blend_real)
  with Cons.IH show ?case by simp
qed

lemma blend_bcast:
  "map2 (\<lambda>t d. t + (1 - \<tau>) * d) t (map (\<lambda>t. c - t) (t::tensor))
        = map2 (\<lambda>t p. \<tau> * t + (1 - \<tau>) * p) t (replicate (length t) c)"
proof (induction t)
  case Nil
  show ?case by simp
next
  case (Cons a t)
  have "a + (1 - \<tau>) * (c - a) = \<tau> * a + (1 - \<tau>) * c" by (rule blend_real)
  with Cons.IH show ?case by simp
qed

lemma soft_param_char:
  "ebind (bcast2 (\<lambda>p t. p - t) p t) (tensor_add (1 - \<tau>) t) =
     (if length p = length t \<or> length p = 1 then Inr (blend \<tau> t p) else Inl RuntimeError)"
proof (cases "length p = length t")
  case True
  then show ?thesis by (simp add: tensor_add_def blend_def blend_same)
next
  case False
  note ne = this
  show ?thesis
  proof (cases "length p = 1")
    case True
    then obtain c where p: "p = [c]" by (cases p) auto
    show ?thesis using ne
      by (simp add: p bcast2_def tensor_add_def blend_def blend_bcast)
  next
    case False
    with ne show ?thesis
      by (auto simp: bcast2_def tensor_add_def inplace2_def)
  qed
qed


lemma copy_buffer_char:
  "copy_buffer net target_net =
     (if zip_compatible (buffers target_net) (buffers net)
      then Inr (target_net\<lparr>buffers := map2 copy_val (buffers target_net) (buffers net)
                                          @ drop (length (buffers net)) (buffers target_net)\<rparr>)
      else Inl RuntimeError)"
  unfolding copy_buffer_def zip_compatible_def
  by (subst zip_update_char[where c = "\<lambda>t p. length p = length t \<or> length p = 1" and g = copy_val])
     (simp_all add: tensor_copy_char copy_val_def)

lemma soft_update_char:
  "soft_update net target_net \<tau> =
     (if zip_compatible (buffers target_net) (buffers net) \<and>
         zip_compatible (parameters target_net) (parameters net)
      then Inr (target_net\<lparr>buffers := map2 copy_val (buffers target_net) (buffers net)
                                          @ drop (length (buffers net)) (buffers target_net),
                             parameters := map2 (blend \<tau>) (parameters target_net) (parameters net)
                                          @ drop (length (parameters net)) (parameters target_net)\<rparr>)
      else Inl RuntimeError)"
  unfolding soft_update_def copy_buffer_char zip_compatible_def
  by (subst zip_update_char[where c = "\<lambda>t p. length p = length t \<or> length p = 1" and g = "blend \<tau>"])
     (simp_all add: soft_param_char)


lemma same_shapes_compatible:
  assumes "map length ts = map length ps"
  shows "zip_compatible ts ps"
  using map_length_zipD[OF assms] by (auto simp: zip_compatible_def list_all_iff)

lemma map2_same_shapes:
  assumes "map length ts = map length (ps :: tensor list)"
    and "\<And>t p. length t = length p \<Longrightarrow> f t p = g t p"
  shows "map2 f ts ps = map2 g ts ps"
  using map_length_zipD[OF assms(1)] assms(2) by (auto intro!: map_cong)

text \<open>
  Claim C4. When the live and the target network have the same topology, the soft update
  sets every target parameter to \<open>tau * target_param + (1 - tau) * live_param\<close>, so that
  \<open>tau\<close> is the weight the target keeps, and replaces every target buffer by the live
  buffer, unblended.
\<close>

theorem soft_update_blend:
  assumes "same_topology net target_net"
  shows "soft_update net target_net \<tau> =
           Inr (target_net\<lparr>buffers := buffers net,
                  parameters := map2 (map2 (\<lambda>t p. \<tau> * t + (1 - \<tau>) * p))
                                  (parameters target_net) (parameters net)\<rparr>)"
proof -
  have lb: "map length (buffers target_net) = map length (buffers net)"
    and lp: "map length (parameters target_net) = map length (parameters net)"
    using assms by (simp_all add: same_topology_def)
  have nb: "length (buffers target_net) = length (buffers net)"
    using lb by (rule map_eq_imp_length_eq)
  have np: "length (parameters target_net) = length (parameters net)"
    using lp by (rule map_eq_imp_length_eq)
  have b: "map2 copy_val (buffers target_net) (buffers net) = buffers net"
  proof -
    have "map2 copy_val (buffers target_net) (buffers net) = map2 (\<lambda>t b. b) (buffers target_net) (buffers net)"
      using lb by (rule map2_same_shapes) (simp add: copy_val_def)
    then show ?thesis using nb by (simp add: case_prod_unfold)
  qed
  have p: "map2 (blend \<tau>) (parameters target_net) (parameters net)
         = map2 (map2 (\<lambda>t p. \<tau> * t + (1 - \<tau>) * p)) (parameters target_net) (parameters net)"
    using lp by (rule map2_same_shapes) (simp add: blend_def)
  show ?thesis
    by (simp add: soft_update_char same_shapes_compatible lb lp b p nb np)
qed


text \<open>Two networks with parameters of sizes 2 and 1 and one buffer, blended with
  \<open>tau = 1/4\<close>.\<close>

theorem soft_update_blend_witness:
  "same_topology \<lparr>parameters = [[1, 2], [3]], buffers = [[7]]\<rparr>
                 \<lparr>parameters = [[5, 6], [0]], buffers = [[9]]\<rparr> \<and>
   soft_update \<lparr>parameters = [[1, 2], [3]], buffers = [[7]]\<rparr>
               \<lparr>parameters = [[5, 6], [0]], buffers = [[9]]\<rparr> (1 / 4) =
     Inr \<lparr>parameters = [[2, 3], [9 / 4]], buffers = [[7]]\<rparr>"
proof -
  have h: "same_topology \<lparr>parameters = [[1, 2], [3]], buffers = [[7]]\<rparr>
                         \<lparr>parameters = [[5, 6], [0]], buffers = [[9]]\<rparr>"
    by (simp add: same_topology_def)
  show ?thesis using h soft_update_blend[OF h, of "1 / 4"] by simp
qed




section \<open>The bootstrapped return\<close>

lemma sequence_e_Inr: "sequence_e (map (\<lambda>x. Inr (f x)) xs) = Inr (map f xs)"
  by (induction xs) simp_all

lemma sequence_e_map_cong:
  assumes "\<And>x. x \<in> set xs \<Longrightarrow> g x = Inr (f x)"
  shows "sequence_e (map g xs) = Inr (map f xs)"
  using assms by (induction xs) simp_all

lemma discounted_sum:
  fixes row :: tensor
  assumes "length row = n"
  shows "sum_list (map2 (*) row (map (\<lambda>t. g ^ t) [0..<n])) = (\<Sum>t<n. g ^ t * row ! t)"
proof -
  have "sum_list (map2 (*) row (map (\<lambda>t. g ^ t) [0..<n]))
        = (\<Sum>t = 0..<n. map2 (*) row (map (\<lambda>t. g ^ t) [0..<n]) ! t)"
    using assms by (simp add: sum_list_sum_nth)
  also have "\<dots> = (\<Sum>t = 0..<n. g ^ t * row ! t)"
    using assms by (intro sum.cong) (simp_all add: mult.commute)
  finally show ?thesis by (simp add: lessThan_atLeast0)
qed

lemma critic_char:
  fixes traj :: "('o list list, 'a list list) BatchTraj"
  assumes wf: "wf_traj traj" and L: "1 \<le> traj_length traj"
    and shape: "length (A2CValue_value forward (a2cvalue self) (map last (obs traj)) target)
                = length (obs traj)"
  shows "critic forward self traj target =
           Inr (map2 (\<lambda>(row, d) v. (\<Sum>t<traj_length traj. gamma self ^ t * row ! t)
                                   + (1 - d) * gamma self ^ traj_length traj * v)
                  (zip (rewards traj) (map last (dones traj)))
                  (A2CValue_value forward (a2cvalue self) (map last (obs traj)) target))"
proof -
  let ?L = "traj_length traj"
  let ?disc = "map (\<lambda>t. gamma self ^ t) [0..<?L]"
  let ?v = "A2CValue_value forward (a2cvalue self) (map last (obs traj)) target"
  have rows: "\<And>row. row \<in> set (rewards traj) \<Longrightarrow> length row = Suc ?L"
    using wf by (simp add: wf_traj_def list_all_iff)
  have nr: "length (rewards traj) = length (obs traj)" and nd: "length (dones traj) = length (obs traj)"
    using wf by (simp_all add: wf_traj_def)
  have seq: "sequence_e (map (\<lambda>row. bcast2 (*) row ?disc) (map butlast (rewards traj)))
        = Inr (map (\<lambda>row. map2 (*) row ?disc) (map butlast (rewards traj)))"
    by (rule sequence_e_map_cong) (auto dest: rows)
  have sums: "map sum_list (map (\<lambda>row. map2 (*) row ?disc) (map butlast (rewards traj)))
        = map (\<lambda>row. \<Sum>t<?L. gamma self ^ t * row ! t) (rewards traj)"
  proof -
    have "sum_list (map2 (*) (butlast row) ?disc) = (\<Sum>t<?L. gamma self ^ t * row ! t)"
      if "row \<in> set (rewards traj)" for row
    proof -
      have len: "length (butlast row) = ?L" using rows[OF that] by simp
      have "sum_list (map2 (*) (butlast row) ?disc) = (\<Sum>t<?L. gamma self ^ t * butlast row ! t)"
        using len by (rule discounted_sum)
      also have "\<dots> = (\<Sum>t<?L. gamma self ^ t * row ! t)"
        using len by (intro sum.cong) (simp_all add: nth_butlast)
      finally show ?thesis .
    qed
    then show ?thesis by simp
  qed
  have boot: "bcast2 (*) (map (\<lambda>d. (1 - d) * gamma self ^ ?L) (map last (dones traj))) ?v
        = Inr (map2 (*) (map (\<lambda>d. (1 - d) * gamma self ^ ?L) (map last (dones traj))) ?v)"
    using shape nd by simp
  have fin: "inplace2 (+) (map (\<lambda>row. \<Sum>t<?L. gamma self ^ t * row ! t) (rewards traj))
               (map2 (*) (map (\<lambda>d. (1 - d) * gamma self ^ ?L) (map last (dones traj))) ?v)
        = Inr (map2 (+) (map (\<lambda>row. \<Sum>t<?L. gamma self ^ t * row ! t) (rewards traj))
               (map2 (*) (map (\<lambda>d. (1 - d) * gamma self ^ ?L) (map last (dones traj))) ?v))"
    using shape nd nr by simp
  have eq: "map2 (+) (map (\<lambda>row. \<Sum>t<?L. gamma self ^ t * row ! t) (rewards traj))
               (map2 (*) (map (\<lambda>d. (1 - d) * gamma self ^ ?L) (map last (dones traj))) ?v)
        = map2 (\<lambda>(row, d) v. (\<Sum>t<?L. gamma self ^ t * row ! t) + (1 - d) * gamma self ^ ?L * v)
                  (zip (rewards traj) (map last (dones traj))) ?v"
    using shape nd nr
    by (intro nth_equalityI) simp_all
  show ?thesis
    using L unfolding critic_def Let_def splitlast_def
    by (simp add: seq sums boot fin eq del: bcast2_same inplace2_same map_map)
qed


lemma last_nth_Suc: "length row = Suc n \<Longrightarrow> last row = row ! n"
  by (cases row rule: rev_cases) (auto simp: nth_append)

text \<open>
  Claim C1. For a batch of length \<open>L \<ge> 1\<close> whose episodes hold \<open>L\<close> steps before the
  last one, and a value function that returns one value per observation, the critic's
  bootstrapped return of every episode is the sum over \<open>t < L\<close> of
  \<open>gamma ^ t * reward t\<close> plus \<open>(1 - done L) * gamma ^ L\<close> times the value of the last
  observation, computed by the live or the target network as \<open>target\<close> says. With rewards
  all zero and no episode done, it is \<open>gamma ^ L\<close> times that value. This holds for every
  discount factor.
\<close>

theorem critic_bootstrapped_return:
  fixes traj :: "('o list list, 'a list list) BatchTraj"
  assumes wf: "wf_traj traj" and L: "1 \<le> traj_length traj"
    and shape: "\<forall>net os. length (forward net os) = length os"
  shows "critic forward self traj target =
           Inr (map (\<lambda>i. (\<Sum>t<traj_length traj. gamma self ^ t * rewards traj ! i ! t)
                        + (1 - dones traj ! i ! traj_length traj) * gamma self ^ traj_length traj
                          * A2CValue_value forward (a2cvalue self)
                              (map (\<lambda>row. row ! traj_length traj) (obs traj)) target ! i)
                  [0..<length (obs traj)]) \<and>
         ((\<forall>row \<in> set (rewards traj). \<forall>t<traj_length traj. row ! t = 0) \<and>
          (\<forall>row \<in> set (dones traj). row ! traj_length traj = 0) \<longrightarrow>
          critic forward self traj target =
            Inr (map (\<lambda>v. gamma self ^ traj_length traj * v)
                   (A2CValue_value forward (a2cvalue self)
                      (map (\<lambda>row. row ! traj_length traj) (obs traj)) target)))"
proof -
  let ?L = "traj_length traj"
  let ?lastobs = "map (\<lambda>row. row ! ?L) (obs traj)"
  let ?v = "A2CValue_value forward (a2cvalue self) ?lastobs target"
  have lastobs: "map last (obs traj) = ?lastobs"
    using wf by (auto simp: wf_traj_def list_all_iff last_nth_Suc)
  have lastd: "map last (dones traj) = map (\<lambda>row. row ! ?L) (dones traj)"
    using wf by (auto simp: wf_traj_def list_all_iff last_nth_Suc)
  have nr: "length (rewards traj) = length (obs traj)" and nd: "length (dones traj) = length (obs traj)"
    using wf by (simp_all add: wf_traj_def)
  have lv: "length ?v = length (obs traj)"
    using shape by (simp add: A2CValue_value_def)
  have c: "critic forward self traj target =
           Inr (map2 (\<lambda>(row, d) v. (\<Sum>t<?L. gamma self ^ t * row ! t) + (1 - d) * gamma self ^ ?L * v)
                  (zip (rewards traj) (map (\<lambda>row. row ! ?L) (dones traj))) ?v)"
    using critic_char[OF wf L, of forward self target] lv by (simp add: lastobs lastd)
  have first: "map2 (\<lambda>(row, d) v. (\<Sum>t<?L. gamma self ^ t * row ! t) + (1 - d) * gamma self ^ ?L * v)
                  (zip (rewards traj) (map (\<lambda>row. row ! ?L) (dones traj))) ?v
        = map (\<lambda>i. (\<Sum>t<?L. gamma self ^ t * rewards traj ! i ! t)
                        + (1 - dones traj ! i ! ?L) * gamma self ^ ?L * ?v ! i)
                  [0..<length (obs traj)]"
    using nr nd lv by (intro nth_equalityI) simp_all
  have second: "map2 (\<lambda>(row, d) v. (\<Sum>t<?L. gamma self ^ t * row ! t) + (1 - d) * gamma self ^ ?L * v)
                  (zip (rewards traj) (map (\<lambda>row. row ! ?L) (dones traj))) ?v
        = map (\<lambda>v. gamma self ^ ?L * v) ?v"
    if z: "\<forall>row \<in> set (rewards traj). \<forall>t<?L. row ! t = 0"
      and d: "\<forall>row \<in> set (dones traj). row ! ?L = 0"
  proof (intro nth_equalityI)
    show "length (map2 (\<lambda>(row, d) v. (\<Sum>t<?L. gamma self ^ t * row ! t) + (1 - d) * gamma self ^ ?L * v)
                  (zip (rewards traj) (map (\<lambda>row. row ! ?L) (dones traj))) ?v)
          = length (map (\<lambda>v. gamma self ^ ?L * v) ?v)"
      using nr nd lv by simp
  next
    fix i
    assume "i < length (map2 (\<lambda>(row, d) v. (\<Sum>t<?L. gamma self ^ t * row ! t) + (1 - d) * gamma self ^ ?L * v)
                  (zip (rewards traj) (map (\<lambda>row. row ! ?L) (dones traj))) ?v)"
    then have i: "i < length (obs traj)" using nr nd lv by simp
    have "rewards traj ! i \<in> set (rewards traj)" using i nr by simp
    then have r0: "(\<Sum>t<?L. gamma self ^ t * rewards traj ! i ! t) = 0" using z by simp
    have "dones traj ! i \<in> set (dones traj)" using i nd by simp
    then have d0: "dones traj ! i ! ?L = 0" using d by simp
    show "map2 (\<lambda>(row, d) v. (\<Sum>t<?L. gamma self ^ t * row ! t) + (1 - d) * gamma self ^ ?L * v)
                  (zip (rewards traj) (map (\<lambda>row. row ! ?L) (dones traj))) ?v ! i
          = map (\<lambda>v. gamma self ^ ?L * v) ?v ! i"
      using i nr nd lv by (simp add: r0 d0)
  qed
  show ?thesis using c first second by simp
qed



text \<open>One episode of length 2, discount 1/2, a target network that doubles the observation:
  rewards 1, 2 give \<open>1 + 2/2 + 60/4 = 17\<close>; rewards 0, 0 give \<open>60/4 = 15\<close>.\<close>

theorem critic_bootstrapped_return_witness:
  "wf_traj \<lparr>obs = [[10 :: real, 20, 30]], actions = [[(), (), ()]], rewards = [[1, 2, 9]], dones = [[0, 0, 0]], traj_length = 2\<rparr> \<and>
   wf_traj \<lparr>obs = [[10 :: real, 20, 30]], actions = [[(), (), ()]], rewards = [[0, 0, 9]], dones = [[0, 0, 0]], traj_length = 2\<rparr> \<and>
   (\<forall>net os. length ((\<lambda>net os. map (\<lambda>ob. hd (hd (parameters net)) * ob) os) net (os :: real list)) = length os) \<and>
   critic (\<lambda>net os. map (\<lambda>ob. hd (hd (parameters net)) * ob) os)
     \<lparr>a2cvalue = \<lparr>v_function = \<lparr>parameters = [[1]], buffers = []\<rparr>,
                             target_v_function = \<lparr>parameters = [[2]], buffers = []\<rparr>, tau = 1 / 2\<rparr>,
                 gamma = 1 / 2\<rparr>
     \<lparr>obs = [[10 :: real, 20, 30]], actions = [[(), (), ()]], rewards = [[1, 2, 9]], dones = [[0, 0, 0]], traj_length = 2\<rparr> True = Inr [17] \<and>
   critic (\<lambda>net os. map (\<lambda>ob. hd (hd (parameters net)) * ob) os)
     \<lparr>a2cvalue = \<lparr>v_function = \<lparr>parameters = [[1]], buffers = []\<rparr>,
                             target_v_function = \<lparr>parameters = [[2]], buffers = []\<rparr>, tau = 1 / 2\<rparr>,
                 gamma = 1 / 2\<rparr>
     \<lparr>obs = [[10 :: real, 20, 30]], actions = [[(), (), ()]], rewards = [[0, 0, 9]], dones = [[0, 0, 0]], traj_length = 2\<rparr> True = Inr [15]"
proof -
  have w1: "wf_traj \<lparr>obs = [[10 :: real, 20, 30]], actions = [[(), (), ()]], rewards = [[1, 2, 9]], dones = [[0, 0, 0]], traj_length = 2\<rparr>"
    and w0: "wf_traj \<lparr>obs = [[10 :: real, 20, 30]], actions = [[(), (), ()]], rewards = [[0, 0, 9]], dones = [[0, 0, 0]], traj_length = 2\<rparr>"
    by (simp_all add: wf_traj_def)
  have sh: "\<forall>net os. length ((\<lambda>net os. map (\<lambda>ob. hd (hd (parameters net)) * ob) os) net (os :: real list)) = length os"
    by simp
  have "critic (\<lambda>net os. map (\<lambda>ob. hd (hd (parameters net)) * ob) os)
     \<lparr>a2cvalue = \<lparr>v_function = \<lparr>parameters = [[1]], buffers = []\<rparr>,
                             target_v_function = \<lparr>parameters = [[2]], buffers = []\<rparr>, tau = 1 / 2\<rparr>,
                 gamma = 1 / 2\<rparr>
     \<lparr>obs = [[10 :: real, 20, 30]], actions = [[(), (), ()]], rewards = [[1, 2, 9]], dones = [[0, 0, 0]], traj_length = 2\<rparr> True = Inr [17]"
    using critic_bootstrapped_return[OF w1 _ sh, of "\<lparr>a2cvalue = \<lparr>v_function = \<lparr>parameters = [[1]], buffers = []\<rparr>,
                             target_v_function = \<lparr>parameters = [[2]], buffers = []\<rparr>, tau = 1 / 2\<rparr>,
                 gamma = 1 / 2\<rparr>" True]
    by (simp add: A2CValue_value_def eval_nat_numeral)
  moreover have "critic (\<lambda>net os. map (\<lambda>ob. hd (hd (parameters net)) * ob) os)
     \<lparr>a2cvalue = \<lparr>v_function = \<lparr>parameters = [[1]], buffers = []\<rparr>,
                             target_v_function = \<lparr>parameters = [[2]], buffers = []\<rparr>, tau = 1 / 2\<rparr>,
                 gamma = 1 / 2\<rparr>
     \<lparr>obs = [[10 :: real, 20, 30]], actions = [[(), (), ()]], rewards = [[0, 0, 9]], dones = [[0, 0, 0]], traj_length = 2\<rparr> True = Inr [15]"
    using critic_bootstrapped_return[OF w0 _ sh, of "\<lparr>a2cvalue = \<lparr>v_function = \<lparr>parameters = [[1]], buffers = []\<rparr>,
                             target_v_function = \<lparr>parameters = [[2]], buffers = []\<rparr>, tau = 1 / 2\<rparr>,
                 gamma = 1 / 2\<rparr>" True]
    by (simp add: A2CValue_value_def eval_nat_numeral less_Suc_eq)
  ultimately show ?thesis using w1 w0 sh by blast
qed


section \<open>The PPO loss\<close>

lemma sum_list_map_uminus: "sum_list (map (\<lambda>x. - f x) xs) = - sum_list (map f (xs :: 'a list)) "
  for f :: "'a \<Rightarrow> real"
  by (induction xs) simp_all


lemma where_t_same:
  assumes "length a = length b" and "length c = length a"
  shows "where_t c a b = Inr (map (\<lambda>i. if c ! i then a ! i else b ! i) [0..<length a])"
proof -
  have "map2 (\<lambda>c (x, y). if c then x else y) c (zip a b)
        = map (\<lambda>i. if c ! i then a ! i else b ! i) [0..<length a]"
    using assms by (intro nth_equalityI) simp_all
  then show ?thesis using assms by (simp add: where_t_def)
qed

lemma loss_unfold:
  assumes lo: "length old_logp = length (log_prob distr acts)"
    and lc: "length cv = length (log_prob distr acts)"
  shows "loss kl distr acts cv ce eps ck old_logp od =
     ebind (if ce \<noteq> 0
             then inplace2 (-) (clipped_loss eps (map2 (-) (log_prob distr acts) old_logp) cv)
                    (map (\<lambda>h. ce * h) (entropy distr))
             else Inr (clipped_loss eps (map2 (-) (log_prob distr acts) old_logp) cv)) (\<lambda>loss1.
      ebind (if ck \<noteq> 0
             then (case od of
                     None \<Rightarrow> Inl ValueError
                   | Some d \<Rightarrow> inplace2 (+) loss1 (map (\<lambda>k. ck * k) (kl d distr)))
             else Inr loss1) (\<lambda>loss2.
      Inr (mean loss2)))"
proof -
  let ?lp = "log_prob distr acts"
  let ?logr = "map2 (-) ?lp old_logp"
  let ?hi = "ln (1 + eps)" and ?lo = "ln (1 - eps)"
  have n: "length ?logr = length ?lp" using lo by simp
  have w: "where_t (map (\<lambda>v. v > 0) cv) (clamp_max ?logr ?hi) (clamp_min ?logr ?lo)
         = Inr (map (\<lambda>i. if cv ! i > 0 then min (?logr ! i) ?hi else max (?logr ! i) ?lo) [0..<length ?lp])"
  proof -
    have "where_t (map (\<lambda>v. v > 0) cv) (clamp_max ?logr ?hi) (clamp_min ?logr ?lo)
         = Inr (map (\<lambda>i. if map (\<lambda>v. v > 0) cv ! i then clamp_max ?logr ?hi ! i else clamp_min ?logr ?lo ! i)
                  [0..<length (clamp_max ?logr ?hi)])"
      using n lc by (intro where_t_same) (simp_all add: clamp_max_def clamp_min_def)
    also have "\<dots> = Inr (map (\<lambda>i. if cv ! i > 0 then min (?logr ! i) ?hi else max (?logr ! i) ?lo) [0..<length ?lp])"
      using n lc lo by (simp add: clamp_max_def clamp_min_def)
    finally show ?thesis .
  qed
  have l0: "bcast2 (\<lambda>r v. - r * v)
              (map exp (map (\<lambda>i. if cv ! i > 0 then min (?logr ! i) ?hi else max (?logr ! i) ?lo) [0..<length ?lp])) cv
           = Inr (clipped_loss eps ?logr cv)"
  proof -
    have "map2 (\<lambda>r v. - r * v)
              (map exp (map (\<lambda>i. if cv ! i > 0 then min (?logr ! i) ?hi else max (?logr ! i) ?lo) [0..<length ?lp])) cv
          = clipped_loss eps ?logr cv"
      unfolding clipped_loss_def using n lc lo by (intro nth_equalityI) simp_all
    then show ?thesis using lc by simp
  qed
  have step1: "bcast2 (-) ?lp old_logp = Inr ?logr" using lo by simp
  show ?thesis
    unfolding loss_def Let_def step1 ebind_Inr w l0 ..
qed





lemma sum_list_map2_add:
  fixes xs ys :: tensor
  assumes "length xs = length ys"
  shows "sum_list (map2 (+) xs ys) = sum_list xs + sum_list ys"
  using assms by (induction xs ys rule: list_induct2) simp_all

lemma mean_add_scaled:
  assumes "length xs = length ks"
  shows "mean (map2 (+) xs (map (\<lambda>k. c * k) ks)) = mean xs + c * mean ks"
proof -
  have "sum_list (map2 (+) xs (map (\<lambda>k. c * k) ks)) = sum_list xs + c * sum_list ks"
    using assms by (simp add: sum_list_map2_add sum_list_const_mult)
  then show ?thesis using assms by (simp add: mean_def add_divide_distrib)
qed

text \<open>
  Claim C6. On tensors of one shape, the PPO loss raises the error reserved for a missing
  \<open>old_distr\<close> (a \<open>ValueError\<close> in the code) exactly when \<open>c_kl\<close> is not zero and
  \<open>old_distr\<close> is \<open>None\<close>. With \<open>c_kl = 0\<close> it returns the same loss whatever
  \<open>old_distr\<close> is; with \<open>c_kl\<close> not zero and \<open>old_distr\<close> given it returns that loss
  plus \<open>c_kl * mean(kl_divergence(old_distr, distr))\<close>.
\<close>

theorem ppo_loss_kl_penalty:
  assumes lo: "length old_logp = length (log_prob distr acts)"
    and lc: "length adv = length (log_prob distr acts)"
    and le: "length (entropy distr) = length (log_prob distr acts)"
    and ne: "adv \<noteq> []"
  shows "(loss kl distr acts adv ce eps ck old_logp od = Inl ValueError \<longleftrightarrow> ck \<noteq> 0 \<and> od = None) \<and>
         (\<exists>b. (\<forall>od'. loss kl distr acts adv ce eps 0 old_logp od' = Inr b) \<and>
              (\<forall>d. ck \<noteq> 0 \<and> length (kl d distr) = length (log_prob distr acts) \<longrightarrow>
                   loss kl distr acts adv ce eps ck old_logp (Some d) = Inr (b + ck * mean (kl d distr))))"
proof -
  let ?lp = "log_prob distr acts"
  let ?l0 = "clipped_loss eps (map2 (-) ?lp old_logp) adv"
  define l1 where "l1 = (if ce \<noteq> 0 then map2 (-) ?l0 (map (\<lambda>h. ce * h) (entropy distr)) else ?l0)"
  have n0: "length ?l0 = length ?lp" using lo lc by (simp add: clipped_loss_def)
  have n1: "length l1 = length ?lp" using n0 le by (simp add: l1_def)
  have st: "(if ce \<noteq> 0 then inplace2 (-) ?l0 (map (\<lambda>h. ce * h) (entropy distr)) else Inr ?l0) = Inr l1"
    using n0 le by (simp add: l1_def)
  have u: "loss kl distr acts adv ce eps c old_logp o' =
      ebind (if c \<noteq> 0
             then (case o' of None \<Rightarrow> Inl ValueError
                   | Some d \<Rightarrow> inplace2 (+) l1 (map (\<lambda>k. c * k) (kl d distr)))
             else Inr l1) (\<lambda>loss2. Inr (mean loss2))" for c o'
    using loss_unfold[OF lo lc, of kl ce eps c o'] by (simp only: st ebind_Inr)
  have zero: "loss kl distr acts adv ce eps 0 old_logp o' = Inr (mean l1)" for o'
    using u[of 0 o'] by simp
  have some: "loss kl distr acts adv ce eps ck old_logp (Some d) = Inr (mean l1 + ck * mean (kl d distr))"
    if "ck \<noteq> 0" "length (kl d distr) = length ?lp" for d
    using u[of ck "Some d"] that n1 by (simp add: mean_add_scaled)
  have err: "loss kl distr acts adv ce eps ck old_logp od = Inl ValueError \<longleftrightarrow> ck \<noteq> 0 \<and> od = None"
  proof (cases "ck = 0")
    case True
    then show ?thesis using zero[of od] by simp
  next
    case False
    show ?thesis
    proof (cases od)
      case None
      then show ?thesis using False u[of ck od] by simp
    next
      case (Some d)
      have "inplace2 (+) l1 (map (\<lambda>k. ck * k) (kl d distr)) \<noteq> Inl ValueError"
        by (simp add: inplace2_def)
      then show ?thesis using False Some u[of ck od]
        by (cases "inplace2 (+) l1 (map (\<lambda>k. ck * k) (kl d distr))") auto
    qed
  qed
  show ?thesis using err zero some by blast
qed



text \<open>The samples above with \<open>c_kl = 1/10\<close> and a divergence of mean 3.\<close>

theorem ppo_loss_kl_penalty_witness:
  "loss (\<lambda>p q. [2, 4]) \<lparr>log_prob = (\<lambda>a. a), entropy = [1, 1]\<rparr> [0, 0] [1, 3] 0 (1 / 5) (1 / 10) [0, 0] None = Inl ValueError \<and>
   (\<exists>b. loss (\<lambda>p q. [2, 4]) \<lparr>log_prob = (\<lambda>a. a), entropy = [1, 1]\<rparr> [0, 0] [1, 3] 0 (1 / 5) 0 [0, 0] None = Inr b \<and>
        loss (\<lambda>p q. [2, 4]) \<lparr>log_prob = (\<lambda>a. a), entropy = [1, 1]\<rparr> [0, 0] [1, 3] 0 (1 / 5) 0 [0, 0] (Some \<lparr>log_prob = (\<lambda>a. a), entropy = [1, 1]\<rparr>) = Inr b \<and>
        loss (\<lambda>p q. [2, 4]) \<lparr>log_prob = (\<lambda>a. a), entropy = [1, 1]\<rparr> [0, 0] [1, 3] 0 (1 / 5) (1 / 10) [0, 0] (Some \<lparr>log_prob = (\<lambda>a. a), entropy = [1, 1]\<rparr>)
          = Inr (b + 3 / 10))"
proof -
  have m: "mean [2, 4] = 3" by (simp add: mean_def)
  show ?thesis
    using ppo_loss_kl_penalty[of "[0, 0]" "\<lparr>log_prob = (\<lambda>a. a), entropy = [1, 1]\<rparr>" "[0, 0]" "[1, 3]" "\<lambda>p q. [2, 4]" 0 "1 / 5" "1 / 10" None]
    by (simp add: m) blast
qed

section \<open>The mixture loss\<close>

lemma map2_nth_conv:
  "length xs = length ys \<Longrightarrow> map2 f xs ys = map (\<lambda>i. f (xs ! i) (ys ! i)) [0..<length xs]"
  by (intro nth_equalityI) simp_all

lemma map_nth_conv: "map f xs = map (\<lambda>i. f (xs ! i)) [0..<length xs]"
  by (intro nth_equalityI) simp_all

lemma bcast2_nth:
  "length xs = length ys \<Longrightarrow> bcast2 f xs ys = Inr (map (\<lambda>i. f (xs ! i) (ys ! i)) [0..<length xs])"
  using map2_nth_conv[of xs ys f] by simp

lemma bcast2_single: "bcast2 f xs [y] = Inr (map (\<lambda>i. f (xs ! i) y) [0..<length xs])"
proof (cases "length xs = 1")
  case True
  then obtain x where "xs = [x]" by (cases xs) auto
  then show ?thesis by simp
next
  case False
  have "map (\<lambda>x. f x y) xs = map (\<lambda>i. f (xs ! i) y) [0..<length xs]"
    by (rule map_nth_conv)
  then show ?thesis using False by (simp add: bcast2_def)
qed

lemma sequence_e_nth:
  assumes "\<And>i. i < length ms \<Longrightarrow> ms ! i = Inr (g i)"
  shows "sequence_e ms = Inr (map g [0..<length ms])"
  using assms
proof (induction ms arbitrary: g)
  case Nil
  show ?case by simp
next
  case (Cons m ms)
  have m: "m = Inr (g 0)" using Cons.prems[of 0] by simp
  have "sequence_e ms = Inr (map (\<lambda>i. g (Suc i)) [0..<length ms])"
  proof (rule Cons.IH)
    fix i assume "i < length ms"
    then show "ms ! i = Inr (g (Suc i))" using Cons.prems[of "Suc i"] by simp
  qed
  moreover have "g 0 # map (\<lambda>i. g (Suc i)) [0..<length ms] = map g [0..<length (m # ms)]"
    by (simp add: map_upt_Suc del: upt_Suc)
  ultimately show ?case using m by simp
qed

lemma bcastE_nth:
  assumes "length xs = length ys"
    and "\<And>i. i < length xs \<Longrightarrow> f (xs ! i) (ys ! i) = Inr (g i)"
  shows "bcastE f xs ys = Inr (map g [0..<length xs])"
proof -
  have "sequence_e (map (\<lambda>i. f (xs ! i) (ys ! i)) [0..<length xs])
        = Inr (map g [0..<length (map (\<lambda>i. f (xs ! i) (ys ! i)) [0..<length xs])])"
    by (rule sequence_e_nth) (simp add: assms(2))
  then show ?thesis using assms(1) by (simp add: bcastE_def bcast2_nth del: bcast2_same)
qed

lemma bcastE_single:
  assumes "\<And>i. i < length xs \<Longrightarrow> f (xs ! i) y = Inr (g i)"
  shows "bcastE f xs [y] = Inr (map g [0..<length xs])"
proof -
  have "sequence_e (map (\<lambda>i. f (xs ! i) y) [0..<length xs])
        = Inr (map g [0..<length (map (\<lambda>i. f (xs ! i) y) [0..<length xs])])"
    by (rule sequence_e_nth) (simp add: assms)
  then show ?thesis by (simp add: bcastE_def bcast2_single)
qed

lemma sum_list_map2_nth:
  fixes f :: "'a \<Rightarrow> 'b \<Rightarrow> real"
  assumes "length xs = length ys"
  shows "sum_list (map2 f xs ys) = (\<Sum>i<length ys. f (xs ! i) (ys ! i))"
  using assms by (simp add: sum_list_sum_nth lessThan_atLeast0)

lemma gmm_loss_unfold:
  assumes sh: "gmm_shapes batch mus sigmas logpi"
  shows "gmm_loss batch mus sigmas logpi correction_factor reduce =
     ebind (sequence_e (map max_keepdim (map (\<lambda>i. component_log_probs (batch ! i) (mus ! i) (sigmas ! i) (logpi ! i))
                  [0..<length batch]))) (\<lambda>max_log_probs.
      ebind (bcast2d (-) (map (\<lambda>i. component_log_probs (batch ! i) (mus ! i) (sigmas ! i) (logpi ! i))
                  [0..<length batch]) max_log_probs) (\<lambda>g_log_probs.
      let g_probs = map (map exp) g_log_probs in
      ebind (case correction_factor of
               None \<Rightarrow> Inr g_probs
             | Some cf \<Rightarrow>
                 sequence_e (map (\<lambda>row.
                   ebind (index_last row 0) (\<lambda>g0.
                   ebind (index_last row 1) (\<lambda>g1.
                   let mask = (if g0 = 1 then 1 else 0) in
                   Inr [mask * g0 * cf + (1 - mask) * g0, g1]))) g_probs)) (\<lambda>g_probs.
      let probs = map sum_list g_probs in
      ebind (bcast2 (+) (concat max_log_probs) (map ln probs)) (\<lambda>log_prob.
      if reduce then Inr (Scalar (- mean log_prob))
      else Inr (PerItem (map uminus log_prob))))))"
proof -
  let ?bs = "length batch"
  let ?nlp = "\<lambda>(loc, scale) v. normal_log_prob loc scale v"
  have lm: "length mus = ?bs" and ls: "length sigmas = ?bs" and ll: "length logpi = ?bs"
    using sh by (simp_all add: gmm_shapes_def)
  have gm: "length (mus ! i) = length (logpi ! i)" and gsg: "length (sigmas ! i) = length (logpi ! i)"
    if "i < ?bs" for i using sh that by (simp_all add: gmm_shapes_def)
  have fm: "length (mus ! i ! k) = length (batch ! i)" and fsg: "length (sigmas ! i ! k) = length (batch ! i)"
    if "i < ?bs" "k < length (logpi ! i)" for i k using sh that by (simp_all add: gmm_shapes_def)
  let ?nd = "\<lambda>i. map (\<lambda>k. zip (mus ! i ! k) (sigmas ! i ! k)) [0..<length (logpi ! i)]"
  have s1: "bcast3d Pair mus sigmas = Inr (map ?nd [0..<?bs])"
  proof -
    have inner: "bcast2d Pair (mus ! i) (sigmas ! i) = Inr (?nd i)" if i: "i < ?bs" for i
    proof -
      have "bcastE (bcast2 Pair) (mus ! i) (sigmas ! i)
            = Inr (map (\<lambda>k. zip (mus ! i ! k) (sigmas ! i ! k)) [0..<length (mus ! i)])"
        using i gm[OF i] gsg[OF i] fm[OF i] fsg[OF i]
        by (intro bcastE_nth) (simp_all add: zip_map_fst_snd case_prod_unfold)
      then show ?thesis using gm[OF i] by (simp add: bcast2d_def)
    qed
    have "bcastE (bcast2d Pair) mus sigmas = Inr (map ?nd [0..<length mus])"
      using lm ls inner by (intro bcastE_nth) simp_all
    then show ?thesis using lm by (simp add: bcast3d_def)
  qed
  let ?lp3 = "\<lambda>i. map (\<lambda>k. map2 ?nlp (zip (mus ! i ! k) (sigmas ! i ! k)) (batch ! i)) [0..<length (logpi ! i)]"
  have s2: "bcast3d ?nlp (map ?nd [0..<?bs]) (map (\<lambda>x. [x]) batch) = Inr (map ?lp3 [0..<?bs])"
  proof -
    have inner: "bcast2d ?nlp (?nd i) [batch ! i] = Inr (?lp3 i)" if i: "i < ?bs" for i
    proof -
      have "bcastE (bcast2 ?nlp) (?nd i) [batch ! i]
            = Inr (map (\<lambda>k. map2 ?nlp (zip (mus ! i ! k) (sigmas ! i ! k)) (batch ! i)) [0..<length (?nd i)])"
        using fm[OF i] fsg[OF i] by (intro bcastE_single) simp
      then show ?thesis by (simp add: bcast2d_def)
    qed
    have "bcastE (bcast2d ?nlp) (map ?nd [0..<?bs]) (map (\<lambda>x. [x]) batch)
          = Inr (map ?lp3 [0..<length (map ?nd [0..<?bs])])"
      using inner by (intro bcastE_nth) simp_all
    then show ?thesis by (simp add: bcast3d_def)
  qed
  have s3: "bcast2d (+) logpi (map (map sum_list) (map ?lp3 [0..<?bs]))
            = Inr (map (\<lambda>i. component_log_probs (batch ! i) (mus ! i) (sigmas ! i) (logpi ! i)) [0..<?bs])"
  proof -
    have inner: "bcast2 (+) (logpi ! i) (map (map sum_list) (map ?lp3 [0..<?bs]) ! i)
                 = Inr (component_log_probs (batch ! i) (mus ! i) (sigmas ! i) (logpi ! i))"
      if i: "i < ?bs" for i
    proof -
      let ?sums = "map (\<lambda>k. \<Sum>f<length (batch ! i). normal_log_prob (mus ! i ! k ! f) (sigmas ! i ! k ! f) (batch ! i ! f))
                [0..<length (logpi ! i)]"
      have e1: "map (map sum_list) (map ?lp3 [0..<?bs]) ! i = map sum_list (?lp3 i)"
        using i by simp
      have e2: "map sum_list (?lp3 i) = ?sums"
        using fm[OF i] fsg[OF i] by (simp add: sum_list_map2_nth)
      have e3: "map2 (+) (logpi ! i) ?sums = component_log_probs (batch ! i) (mus ! i) (sigmas ! i) (logpi ! i)"
        unfolding component_log_probs_def by (intro nth_equalityI) simp_all
      have "bcast2 (+) (logpi ! i) ?sums = Inr (map2 (+) (logpi ! i) ?sums)"
        by (rule bcast2_same) simp
      then show ?thesis unfolding e1 e2 e3 .
    qed
    have "bcastE (bcast2 (+)) logpi (map (map sum_list) (map ?lp3 [0..<?bs]))
          = Inr (map (\<lambda>i. component_log_probs (batch ! i) (mus ! i) (sigmas ! i) (logpi ! i)) [0..<length logpi])"
      using ll inner by (intro bcastE_nth) simp_all
    then show ?thesis using ll by (simp add: bcast2d_def)
  qed
  show ?thesis unfolding gmm_loss_def by (simp only: Let_def s1 ebind_Inr s2 s3)
qed


lemma max_keepdim_nonempty: "row \<noteq> [] \<Longrightarrow> max_keepdim row = Inr [rowmax row]"
  by (cases row) (simp_all add: max_keepdim_def rowmax_def)

lemma concat_singletons: "concat (map (\<lambda>i. [r i]) xs) = map r xs"
  by (induction xs) simp_all

lemma gmm_loss_char:
  assumes sh: "gmm_shapes batch mus sigmas logpi"
    and need: "\<And>i. i < length batch \<Longrightarrow>
                 (case correction_factor of None \<Rightarrow> 1 | Some cf \<Rightarrow> 2) \<le> length (logpi ! i)"
  shows "gmm_loss batch mus sigmas logpi correction_factor reduce =
           Inr (if reduce
                then Scalar (- mean (map (\<lambda>i. item_log_prob correction_factor
                          (component_log_probs (batch ! i) (mus ! i) (sigmas ! i) (logpi ! i)))
                        [0..<length batch]))
                else PerItem (map uminus (map (\<lambda>i. item_log_prob correction_factor
                          (component_log_probs (batch ! i) (mus ! i) (sigmas ! i) (logpi ! i)))
                        [0..<length batch])))"
proof -
  let ?bs = "length batch"
  let ?C = "\<lambda>i. component_log_probs (batch ! i) (mus ! i) (sigmas ! i) (logpi ! i)"
  let ?r = "\<lambda>i. rowmax (?C i)"
  let ?P = "\<lambda>i. map (\<lambda>g. exp (g - ?r i)) (?C i)"
  have lenC: "length (?C i) = length (logpi ! i)" for i
    by (simp add: component_log_probs_def)
  have ne: "?C i \<noteq> []" if "i < ?bs" for i
  proof -
    have "1 \<le> length (logpi ! i)" using need[OF that] by (cases correction_factor) simp_all
    then show ?thesis using lenC[of i] by (cases "?C i") simp_all
  qed
  have m4: "sequence_e (map max_keepdim (map ?C [0..<?bs])) = Inr (map (\<lambda>i. [?r i]) [0..<?bs])"
  proof -
    have "sequence_e (map max_keepdim (map ?C [0..<?bs]))
          = Inr (map (\<lambda>i. [?r i]) [0..<length (map max_keepdim (map ?C [0..<?bs]))])"
      by (rule sequence_e_nth) (simp add: max_keepdim_nonempty ne)
    then show ?thesis by simp
  qed
  have m5: "bcast2d (-) (map ?C [0..<?bs]) (map (\<lambda>i. [?r i]) [0..<?bs])
            = Inr (map (\<lambda>i. map (\<lambda>g. g - ?r i) (?C i)) [0..<?bs])"
  proof -
    have inner: "bcast2 (-) (?C i) [?r i] = Inr (map (\<lambda>g. g - ?r i) (?C i))" for i
      using bcast2_single[of "(-)" "?C i" "?r i"] map_nth_conv[of "\<lambda>g. g - ?r i" "?C i"] by simp
    have "bcastE (bcast2 (-)) (map ?C [0..<?bs]) (map (\<lambda>i. [?r i]) [0..<?bs])
          = Inr (map (\<lambda>i. map (\<lambda>g. g - ?r i) (?C i)) [0..<length (map ?C [0..<?bs])])"
      by (rule bcastE_nth) (simp_all add: inner)
    then show ?thesis by (simp add: bcast2d_def)
  qed
  have m6: "map (map exp) (map (\<lambda>i. map (\<lambda>g. g - ?r i) (?C i)) [0..<?bs]) = map ?P [0..<?bs]"
    by simp
  have m7: "(case correction_factor of
               None \<Rightarrow> Inr (map ?P [0..<?bs])
             | Some cf \<Rightarrow>
                 sequence_e (map (\<lambda>row.
                   ebind (index_last row 0) (\<lambda>g0.
                   ebind (index_last row 1) (\<lambda>g1.
                   Inr [(if g0 = 1 then 1 else 0) * g0 * cf + (1 - (if g0 = 1 then 1 else 0)) * g0, g1]))) (map ?P [0..<?bs])))
            = Inr (map (\<lambda>i. corrected correction_factor (?P i)) [0..<?bs])"
  proof (cases correction_factor)
    case None
    then show ?thesis by (simp add: corrected_def)
  next
    case (Some cf)
    let ?corr = "\<lambda>row. ebind (index_last row 0) (\<lambda>g0.
                   ebind (index_last row 1) (\<lambda>g1.
                   Inr [(if g0 = 1 then 1 else 0) * g0 * cf + (1 - (if g0 = 1 then 1 else 0)) * g0, g1]))"
    have row: "?corr (?P i) = Inr (corrected (Some cf) (?P i))" if "i < ?bs" for i
    proof -
      have "2 \<le> length (?P i)" using need[OF that] Some lenC[of i] by simp
      then have "0 < length (?P i)" "1 < length (?P i)" by auto
      then show ?thesis by (simp add: index_last_def corrected_def Let_def)
    qed
    have "sequence_e (map ?corr (map ?P [0..<?bs]))
          = Inr (map (\<lambda>i. corrected (Some cf) (?P i)) [0..<length (map ?corr (map ?P [0..<?bs]))])"
      by (rule sequence_e_nth) (simp add: row del: One_nat_def)
    then show ?thesis using Some by simp
  qed
  have m9: "bcast2 (+) (concat (map (\<lambda>i. [?r i]) [0..<?bs]))
              (map ln (map sum_list (map (\<lambda>i. corrected correction_factor (?P i)) [0..<?bs])))
            = Inr (map (\<lambda>i. item_log_prob correction_factor (?C i)) [0..<?bs])"
  proof -
    have "map2 (+) (map ?r [0..<?bs])
              (map ln (map sum_list (map (\<lambda>i. corrected correction_factor (?P i)) [0..<?bs])))
          = map (\<lambda>i. item_log_prob correction_factor (?C i)) [0..<?bs]"
      unfolding item_log_prob_def by (intro nth_equalityI) simp_all
    then show ?thesis by (simp add: concat_singletons)
  qed
  show ?thesis
    unfolding gmm_loss_unfold[OF sh] Let_def m4 ebind_Inr m5 m6 m7 m9
    by simp
qed


lemma rowmax_Max: "c \<noteq> [] \<Longrightarrow> rowmax c = Max (set c)"
proof (cases c)
  case Nil
  assume "c \<noteq> []"
  with Nil show ?thesis by simp
next
  case (Cons a list)
  then show ?thesis using Max.set_eq_fold[of a list] by (simp add: rowmax_def)
qed

lemma sum_list_exp_pos: "c \<noteq> [] \<Longrightarrow> 0 < sum_list (map exp (c :: tensor))"
proof (induction c)
  case Nil
  then show ?case by simp
next
  case (Cons a c)
  have "0 \<le> sum_list (map exp c)" by (rule sum_list_nonneg) auto
  moreover have "0 < exp a" by simp
  ultimately show ?case by (simp add: add_pos_nonneg)
qed

lemma sum_list_exp_shift:
  "sum_list (map (\<lambda>g. exp (g - m)) c) = exp (- m) * sum_list (map exp (c :: tensor))"
  by (induction c) (simp_all add: exp_diff exp_minus field_simps)

lemma item_log_prob_logsumexp:
  assumes "c \<noteq> []"
  shows "item_log_prob None c = ln (\<Sum>k<length c. exp (c ! k))"
proof -
  let ?S = "sum_list (map exp c)"
  have pos: "0 < ?S" using assms by (rule sum_list_exp_pos)
  have "item_log_prob None c = rowmax c + ln (exp (- rowmax c) * ?S)"
    by (simp add: item_log_prob_def corrected_def sum_list_exp_shift)
  also have "\<dots> = rowmax c + (ln (exp (- rowmax c)) + ln ?S)"
    using pos by (simp add: ln_mult)
  also have "\<dots> = ln ?S" by simp
  also have "?S = (\<Sum>k<length c. exp (c ! k))"
    by (simp add: sum_list_sum_nth lessThan_atLeast0)
  finally show ?thesis .
qed

lemma item_log_prob_single: "item_log_prob None [l] = l"
  by (simp add: item_log_prob_def corrected_def rowmax_def)

lemma item_log_prob_corrected:
  assumes len: "2 \<le> length c" and cf: "0 < cf"
  shows "item_log_prob (Some cf) c =
           ln ((if c ! 0 = Max (set c) then cf else 1) * exp (c ! 0) + exp (c ! 1))"
proof -
  let ?m = "rowmax c"
  let ?k = "if c ! 0 = ?m then cf else (1 :: real)"
  have ne: "c \<noteq> []" using len by auto
  have l0: "0 < length c" and l1: "1 < length c" using len by auto
  have kpos: "0 < ?k" using cf by simp
  have p0: "map (\<lambda>g. exp (g - ?m)) c ! 0 = exp (c ! 0 - ?m)" using l0 by simp
  have p1: "map (\<lambda>g. exp (g - ?m)) c ! 1 = exp (c ! 1 - ?m)" using l1 by (simp del: One_nat_def)
  have first: "(if exp (c ! 0 - ?m) = 1 then 1 else 0) * exp (c ! 0 - ?m) * cf
               + (1 - (if exp (c ! 0 - ?m) = 1 then 1 else 0)) * exp (c ! 0 - ?m)
               = ?k * exp (c ! 0 - ?m)"
    by auto
  have "sum_list (corrected (Some cf) (map (\<lambda>g. exp (g - ?m)) c))
        = ?k * exp (c ! 0 - ?m) + exp (c ! 1 - ?m)"
    unfolding corrected_def option.case p0 p1 first by simp
  also have "\<dots> = exp (- ?m) * (?k * exp (c ! 0) + exp (c ! 1))"
    by (simp add: exp_diff exp_minus field_simps)
  finally have s: "sum_list (corrected (Some cf) (map (\<lambda>g. exp (g - ?m)) c))
        = exp (- ?m) * (?k * exp (c ! 0) + exp (c ! 1))" .
  have pos: "0 < ?k * exp (c ! 0) + exp (c ! 1)"
    using kpos by (intro add_pos_pos mult_pos_pos) simp_all
  have "item_log_prob (Some cf) c = ?m + ln (exp (- ?m) * (?k * exp (c ! 0) + exp (c ! 1)))"
    unfolding item_log_prob_def s ..
  also have "\<dots> = ?m + (ln (exp (- ?m)) + ln (?k * exp (c ! 0) + exp (c ! 1)))"
    using pos by (simp add: ln_mult)
  also have "\<dots> = ln (?k * exp (c ! 0) + exp (c ! 1))" by simp
  finally show ?thesis by (simp add: rowmax_Max[OF ne])
qed


text \<open>
  Claim C7. Without correction factor and on well-shaped, non-empty input, the loss of an
  item is minus the logarithm of the sum over the components of the exponentials of their
  log-probabilities: subtracting the maximum before exponentiating and adding it back
  after the logarithm leaves the unshifted log-sum-exp. With a single component of
  log-weight 0 per item, the loss of an item is minus the Gaussian log-likelihood of the
  target summed over the features, and the reduced loss is minus the mean of these.
\<close>

theorem gmm_loss_single_component:
  assumes sh: "gmm_shapes batch mus sigmas logpi" and ne: "batch \<noteq> []"
  shows "((\<forall>i<length batch. logpi ! i \<noteq> []) \<longrightarrow>
            gmm_loss batch mus sigmas logpi None False =
              Inr (PerItem (map (\<lambda>i. - ln (\<Sum>k<length (logpi ! i).
                       exp (component_log_probs (batch ! i) (mus ! i) (sigmas ! i) (logpi ! i) ! k)))
                     [0..<length batch]))) \<and>
         ((\<forall>i<length batch. logpi ! i = [0]) \<longrightarrow>
            gmm_loss batch mus sigmas logpi None False =
              Inr (PerItem (map (\<lambda>i. - (\<Sum>f<length (batch ! i).
                       normal_log_prob (mus ! i ! 0 ! f) (sigmas ! i ! 0 ! f) (batch ! i ! f)))
                     [0..<length batch])) \<and>
            gmm_loss batch mus sigmas logpi None True =
              Inr (Scalar (- mean (map (\<lambda>i. \<Sum>f<length (batch ! i).
                       normal_log_prob (mus ! i ! 0 ! f) (sigmas ! i ! 0 ! f) (batch ! i ! f))
                     [0..<length batch]))))"
proof -
  let ?C = "\<lambda>i. component_log_probs (batch ! i) (mus ! i) (sigmas ! i) (logpi ! i)"
  let ?ll = "\<lambda>i. \<Sum>f<length (batch ! i). normal_log_prob (mus ! i ! 0 ! f) (sigmas ! i ! 0 ! f) (batch ! i ! f)"
  have lenC: "length (?C i) = length (logpi ! i)" for i
    by (simp add: component_log_probs_def)
  have general: "gmm_loss batch mus sigmas logpi None False =
              Inr (PerItem (map (\<lambda>i. - ln (\<Sum>k<length (logpi ! i). exp (?C i ! k))) [0..<length batch]))"
    if all: "\<forall>i<length batch. logpi ! i \<noteq> []"
  proof -
    have need: "(case None :: real option of None \<Rightarrow> 1 | Some cf \<Rightarrow> 2) \<le> length (logpi ! i)"
      if "i < length batch" for i
      using all that by (cases "logpi ! i") simp_all
    have "item_log_prob None (?C i) = ln (\<Sum>k<length (logpi ! i). exp (?C i ! k))"
      if "i < length batch" for i
    proof -
      have "?C i \<noteq> []" using all that lenC[of i] by (cases "?C i") auto
      then show ?thesis using item_log_prob_logsumexp[of "?C i"] lenC[of i] by simp
    qed
    then have eq: "map (\<lambda>i. item_log_prob None (?C i)) [0..<length batch]
          = map (\<lambda>i. ln (\<Sum>k<length (logpi ! i). exp (?C i ! k))) [0..<length batch]"
      by simp
    have "gmm_loss batch mus sigmas logpi None False =
           Inr (PerItem (map uminus (map (\<lambda>i. ln (\<Sum>k<length (logpi ! i). exp (?C i ! k))) [0..<length batch])))"
      using gmm_loss_char[OF sh need, of False] by (simp only: eq if_False)
    then show ?thesis by (simp add: o_def)
  qed
  have single: "gmm_loss batch mus sigmas logpi None r =
              Inr (if r then Scalar (- mean (map ?ll [0..<length batch]))
                   else PerItem (map uminus (map ?ll [0..<length batch])))"
    if all: "\<forall>i<length batch. logpi ! i = [0]" for r
  proof -
    have need: "(case None :: real option of None \<Rightarrow> 1 | Some cf \<Rightarrow> 2) \<le> length (logpi ! i)"
      if "i < length batch" for i
      using all that by simp
    have "item_log_prob None (?C i) = ?ll i" if "i < length batch" for i
    proof -
      have "?C i = [?ll i]" using all that by (simp add: component_log_probs_def)
      then show ?thesis by (simp only: item_log_prob_single)
    qed
    then have eq: "map (\<lambda>i. item_log_prob None (?C i)) [0..<length batch] = map ?ll [0..<length batch]"
      by simp
    show ?thesis using gmm_loss_char[OF sh need, of r] by (simp only: eq)
  qed
  show ?thesis using general single[of True] single[of False] by (simp add: o_def)
qed

text \<open>
  Claim C10. With a correction factor \<open>cf > 0\<close> and at least two components per item,
  \<open>gmm_loss\<close> returns without error, and the likelihood of an item is
  \<open>c * exp(lp 0) + exp(lp 1)\<close>, where \<open>lp k\<close> is the log-probability of component
  \<open>k\<close> and \<open>c\<close> is \<open>cf\<close> when component 0 attains the maximum over all components
  and 1 otherwise. The components of index 2 and above contribute no term to the sum; they
  enter only through that maximum.
\<close>

theorem gmm_loss_correction_two_components:
  assumes sh: "gmm_shapes batch mus sigmas logpi" and ne: "batch \<noteq> []"
    and gs: "\<forall>i<length batch. 2 \<le> length (logpi ! i)"
    and cf: "0 < cf"
  shows "gmm_loss batch mus sigmas logpi (Some cf) reduce =
           Inr (if reduce
                then Scalar (- mean (map (\<lambda>i.
                       let lp = component_log_probs (batch ! i) (mus ! i) (sigmas ! i) (logpi ! i)
                       in ln ((if lp ! 0 = Max (set lp) then cf else 1) * exp (lp ! 0) + exp (lp ! 1)))
                     [0..<length batch]))
                else PerItem (map (\<lambda>i.
                       let lp = component_log_probs (batch ! i) (mus ! i) (sigmas ! i) (logpi ! i)
                       in - ln ((if lp ! 0 = Max (set lp) then cf else 1) * exp (lp ! 0) + exp (lp ! 1)))
                     [0..<length batch]))"
proof -
  let ?C = "\<lambda>i. component_log_probs (batch ! i) (mus ! i) (sigmas ! i) (logpi ! i)"
  let ?L = "\<lambda>i. ln ((if ?C i ! 0 = Max (set (?C i)) then cf else 1) * exp (?C i ! 0) + exp (?C i ! 1))"
  have lenC: "length (?C i) = length (logpi ! i)" for i
    by (simp add: component_log_probs_def)
  have need: "(case Some cf of None \<Rightarrow> 1 | Some cf \<Rightarrow> 2) \<le> length (logpi ! i)"
    if "i < length batch" for i
    using gs that by simp
  have "item_log_prob (Some cf) (?C i) = ?L i" if "i < length batch" for i
  proof -
    have "2 \<le> length (?C i)" using gs that lenC[of i] by simp
    then show ?thesis using cf by (rule item_log_prob_corrected)
  qed
  then have eq: "map (\<lambda>i. item_log_prob (Some cf) (?C i)) [0..<length batch] = map ?L [0..<length batch]"
    by simp
  have "gmm_loss batch mus sigmas logpi (Some cf) reduce =
           Inr (if reduce then Scalar (- mean (map ?L [0..<length batch]))
                else PerItem (map uminus (map ?L [0..<length batch])))"
    using gmm_loss_char[OF sh need, of reduce] by (simp only: eq)
  then show ?thesis by (simp add: Let_def o_def)
qed


text \<open>One item with two features and one standard normal component.\<close>

theorem gmm_loss_single_component_witness:
  "gmm_loss [[0, 1]] [[[0, 0]]] [[[1, 1]]] [[0]] None False
     = Inr (PerItem [- (normal_log_prob 0 1 0 + normal_log_prob 0 1 1)]) \<and>
   gmm_loss [[0, 1]] [[[0, 0]]] [[[1, 1]]] [[0]] None True
     = Inr (Scalar (- (normal_log_prob 0 1 0 + normal_log_prob 0 1 1)))"
proof -
  have sh: "gmm_shapes [[0, 1]] [[[0, 0]]] [[[1, 1]]] [[0]]"
    by (simp add: gmm_shapes_def)
  show ?thesis
    using sh gmm_loss_single_component[OF sh]
    by (simp add: mean_def eval_nat_numeral component_log_probs_def)
qed

text \<open>One item, three components of which the third is far from the target, correction
  factor 2: the likelihood is \<open>2 * exp(lp 0) + exp(lp 1)\<close>, the third component is absent.\<close>

theorem gmm_loss_correction_two_components_witness:
  "gmm_loss [[0]] [[[0], [0], [5]]] [[[1], [1], [1]]] [[0, 0, 0]] (Some 2) False
     = Inr (PerItem [- ln (3 * exp (normal_log_prob 0 1 0))])"
proof -
  have sh: "gmm_shapes [[0]] [[[0], [0], [5]]] [[[1], [1], [1]]] [[0, 0, 0]]"
    by (simp add: gmm_shapes_def less_Suc_eq eval_nat_numeral)
  have c: "component_log_probs [0] [[0], [0], [5]] [[1], [1], [1]] [0, 0, 0]
           = [normal_log_prob 0 1 0, normal_log_prob 0 1 0, normal_log_prob 5 1 0]"
    by (simp add: component_log_probs_def eval_nat_numeral)
  have le: "normal_log_prob 5 1 0 \<le> normal_log_prob 0 1 0"
    by (simp add: normal_log_prob_def)
  show ?thesis
    using sh le gmm_loss_correction_two_components[OF sh, of 2 False]
    by (simp add: c max_def)
qed

section \<open>The A2C actors\<close>

lemma sum_list_map_diff_scaled:
  fixes f g :: "'a \<Rightarrow> real"
  shows "sum_list (map (\<lambda>x. f x - c * g x) xs) = sum_list (map f xs) - c * sum_list (map g xs)"
  by (induction xs) (simp_all add: algebra_simps)

lemma mean_map_diff_scaled:
  "mean (map (\<lambda>i. f i - c * g i) xs) = mean (map f xs) - c * mean (map g xs)"
  by (simp add: mean_def sum_list_map_diff_scaled diff_divide_distrib)

lemma mean_const_minus_scaled:
  assumes "xs \<noteq> []"
  shows "mean (map (\<lambda>i. k - c * g i) xs) = k - c * mean (map g xs)"
proof -
  have "sum_list (map (\<lambda>i. k) xs) = real (length xs) * k"
    by (induction xs) (simp_all add: algebra_simps)
  then have "mean (map (\<lambda>i. k) xs) = k" using assms by (simp add: mean_def)
  then show ?thesis using mean_map_diff_scaled[of "\<lambda>i. k" c g xs] by simp
qed

lemma mean_map_uminus: "mean (map (\<lambda>i. - f i) xs) = - mean (map f xs)"
  using sum_list_map_uminus[of f xs] by (simp add: mean_def)

lemma nth_map_length_eq:
  assumes "map length xs = map length ys" and "i < length ys"
  shows "length (xs ! i) = length (ys ! i)"
proof -
  have "length xs = length ys" using assms(1) by (rule map_eq_imp_length_eq)
  then have "map length xs ! i = length (xs ! i)" "map length ys ! i = length (ys ! i)"
    using assms(2) by simp_all
  then show ?thesis using assms(1) by simp
qed

lemma continuous_loss_value:
  fixes traj :: "('obs, tensor list) BatchTraj"
  assumes pol: "policy net (obs traj) = (mu, sigma)"
    and ne: "mu \<noteq> []"
    and ls: "map length sigma = map length mu"
    and la: "map length (actions traj) = map length mu"
    and lv: "length adv = length mu"
  shows "A2CActorContinuous_loss policy c traj adv net =
           Inr (- mean (map (\<lambda>i. (\<Sum>a<length (mu ! i).
                          normal_log_prob (mu ! i ! a) (sigma ! i ! a) (actions traj ! i ! a)) * adv ! i)
                        [0..<length mu])
                - c * mean (map (\<lambda>i. \<Sum>a<length (mu ! i). normal_entropy (sigma ! i ! a))
                        [0..<length mu]))"
proof -
  let ?N = "length mu"
  let ?nlp = "\<lambda>(loc, scale) a. normal_log_prob loc scale a"
  let ?d = "\<lambda>i. zip (mu ! i) (sigma ! i)"
  let ?lp = "\<lambda>i. \<Sum>a<length (mu ! i). normal_log_prob (mu ! i ! a) (sigma ! i ! a) (actions traj ! i ! a)"
  let ?ent = "\<lambda>i. \<Sum>a<length (mu ! i). normal_entropy (sigma ! i ! a)"
  have ns: "length sigma = ?N" using ls by (rule map_eq_imp_length_eq)
  have na: "length (actions traj) = ?N" using la by (rule map_eq_imp_length_eq)
  have rs: "length (sigma ! i) = length (mu ! i)" if "i < ?N" for i
    using ls that by (rule nth_map_length_eq)
  have ra: "length (actions traj ! i) = length (mu ! i)" if "i < ?N" for i
    using la that by (rule nth_map_length_eq)
  have d: "Normal mu sigma = Inr (map ?d [0..<?N])"
  proof -
    have "bcastE (bcast2 Pair) mu sigma = Inr (map ?d [0..<length mu])"
      using ns rs by (intro bcastE_nth) (simp_all add: zip_map_fst_snd case_prod_unfold)
    then show ?thesis by (simp add: Normal_def bcast2d_def)
  qed
  have lp: "bcast2d ?nlp (map ?d [0..<?N]) (actions traj)
            = Inr (map (\<lambda>i. map2 ?nlp (?d i) (actions traj ! i)) [0..<?N])"
  proof -
    have "bcastE (bcast2 ?nlp) (map ?d [0..<?N]) (actions traj)
          = Inr (map (\<lambda>i. map2 ?nlp (?d i) (actions traj ! i)) [0..<length (map ?d [0..<?N])])"
      using na rs ra by (intro bcastE_nth) simp_all
    then show ?thesis by (simp add: bcast2d_def)
  qed
  have sums: "map sum_list (map (\<lambda>i. map2 ?nlp (?d i) (actions traj ! i)) [0..<?N]) = map ?lp [0..<?N]"
  proof -
    have "sum_list (map2 ?nlp (?d i) (actions traj ! i)) = ?lp i" if "i < ?N" for i
      using rs[OF that] ra[OF that] by (simp add: sum_list_map2_nth)
    then show ?thesis by simp
  qed
  have ent: "map (\<lambda>row. sum_list (map (\<lambda>(loc, scale). normal_entropy scale) row)) (map ?d [0..<?N])
             = map ?ent [0..<?N]"
  proof -
    have "sum_list (map (\<lambda>(loc, scale). normal_entropy scale) (?d i)) = ?ent i" if "i < ?N" for i
    proof -
      have "map (\<lambda>(loc, scale). normal_entropy scale) (?d i) = map normal_entropy (sigma ! i)"
        using rs[OF that] by (intro nth_equalityI) simp_all
      then show ?thesis using rs[OF that] by (simp add: sum_list_sum_nth lessThan_atLeast0)
    qed
    then show ?thesis by simp
  qed
  have w: "bcast2 (\<lambda>l v. - l * v) (map ?lp [0..<?N]) adv = Inr (map (\<lambda>i. - (?lp i * adv ! i)) [0..<?N])"
  proof -
    have "map2 (\<lambda>l v. - l * v) (map ?lp [0..<?N]) adv = map (\<lambda>i. - (?lp i * adv ! i)) [0..<?N]"
      using lv by (intro nth_equalityI) simp_all
    then show ?thesis using lv by simp
  qed
  have fin: "mean (map (\<lambda>h. mean (map (\<lambda>i. - (?lp i * adv ! i)) [0..<?N]) - c * h) (map ?ent [0..<?N]))
             = - mean (map (\<lambda>i. ?lp i * adv ! i) [0..<?N]) - c * mean (map ?ent [0..<?N])"
  proof -
    have "map (\<lambda>h. mean (map (\<lambda>i. - (?lp i * adv ! i)) [0..<?N]) - c * h) (map ?ent [0..<?N])
          = map (\<lambda>i. mean (map (\<lambda>i. - (?lp i * adv ! i)) [0..<?N]) - c * ?ent i) [0..<?N]"
      by simp
    moreover have nn: "[0..<?N] \<noteq> []" using ne by simp
    moreover have "mean (map (\<lambda>i. mean (map (\<lambda>i. - (?lp i * adv ! i)) [0..<?N]) - c * ?ent i) [0..<?N])
          = mean (map (\<lambda>i. - (?lp i * adv ! i)) [0..<?N]) - c * mean (map ?ent [0..<?N])"
      using nn by (rule mean_const_minus_scaled)
    moreover have "mean (map (\<lambda>i. - (?lp i * adv ! i)) [0..<?N]) = - mean (map (\<lambda>i. ?lp i * adv ! i) [0..<?N])"
      by (rule mean_map_uminus)
    ultimately show ?thesis by (simp del: map_map)
  qed
  show ?thesis
    unfolding A2CActorContinuous_loss_def Let_def pol prod.case d ebind_Inr lp sums ent w fin ..
qed


lemma discrete_loss_value:
  fixes traj :: "('obs, nat list) BatchTraj"
  assumes pol: "policy net (obs traj) = logits"
    and la: "length (actions traj) = length logits"
    and lv: "length adv = length logits"
    and valid: "\<forall>i<length logits. actions traj ! i < length (logits ! i)"
  shows "A2CActorDiscrete_loss policy c traj adv net =
           Inr (- mean (map (\<lambda>i. log_softmax (logits ! i) ! (actions traj ! i) * adv ! i)
                        [0..<length logits])
                - c * mean (map (\<lambda>i. categorical_entropy (logits ! i)) [0..<length logits]))"
proof -
  let ?N = "length logits"
  let ?lp = "\<lambda>i. log_softmax (logits ! i) ! (actions traj ! i)"
  let ?ent = "\<lambda>i. categorical_entropy (logits ! i)"
  have lp: "bcastE categorical_log_prob logits (actions traj) = Inr (map ?lp [0..<?N])"
    using la valid by (intro bcastE_nth) (simp_all add: categorical_log_prob_def)
  have ent: "map categorical_entropy logits = map ?ent [0..<?N]"
    by (rule map_nth_conv)
  have w: "bcast2 (\<lambda>l v. - l * v) (map ?lp [0..<?N]) adv = Inr (map (\<lambda>i. - (?lp i * adv ! i)) [0..<?N])"
  proof -
    have "map2 (\<lambda>l v. - l * v) (map ?lp [0..<?N]) adv = map (\<lambda>i. - (?lp i * adv ! i)) [0..<?N]"
      using lv by (intro nth_equalityI) simp_all
    then show ?thesis using lv by simp
  qed
  have l: "bcast2 (\<lambda>w h. w - c * h) (map (\<lambda>i. - (?lp i * adv ! i)) [0..<?N]) (map ?ent [0..<?N])
           = Inr (map (\<lambda>i. - (?lp i * adv ! i) - c * ?ent i) [0..<?N])"
  proof -
    have "map2 (\<lambda>w h. w - c * h) (map (\<lambda>i. - (?lp i * adv ! i)) [0..<?N]) (map ?ent [0..<?N])
          = map (\<lambda>i. - (?lp i * adv ! i) - c * ?ent i) [0..<?N]"
      by (intro nth_equalityI) simp_all
    then show ?thesis by simp
  qed
  have fin: "mean (map (\<lambda>i. - (?lp i * adv ! i) - c * ?ent i) [0..<?N])
             = - mean (map (\<lambda>i. ?lp i * adv ! i) [0..<?N]) - c * mean (map ?ent [0..<?N])"
  proof -
    have "mean (map (\<lambda>i. - (?lp i * adv ! i) - c * ?ent i) [0..<?N])
          = mean (map (\<lambda>i. - (?lp i * adv ! i)) [0..<?N]) - c * mean (map ?ent [0..<?N])"
      by (rule mean_map_diff_scaled)
    moreover have "mean (map (\<lambda>i. - (?lp i * adv ! i)) [0..<?N]) = - mean (map (\<lambda>i. ?lp i * adv ! i) [0..<?N])"
      by (rule mean_map_uminus)
    ultimately show ?thesis by simp
  qed
  show ?thesis
    unfolding A2CActorDiscrete_loss_def Let_def pol lp ebind_Inr ent w l fin ..
qed

text \<open>
  Claim C8. Both A2C actors build the policy distribution from the policy function applied
  to the observations of the batch, and on tensors of matching shapes the loss they hand to
  the optimizer equals \<open>-mean(log_prob(actions) * advantage) - c_entropy * mean(entropy)\<close>
  (for the Gaussian policy the log-probability and the entropy of a sample are summed over
  the action axis). The equation holds at every network, with the advantage a fixed tensor
  that does not depend on the network; \<open>optimize\<close> takes one optimizer step on this loss.
\<close>

theorem a2c_actor_optimize_loss:
  fixes trajc :: "('obs, tensor list) BatchTraj" and trajd :: "('obs, nat list) BatchTraj"
  assumes "policy_c net (obs trajc) = (mu, sigma)"
    and "mu \<noteq> []"
    and "map length sigma = map length mu"
    and "map length (actions trajc) = map length mu"
    and "length adv = length mu"
    and "policy_d net (obs trajd) = logits"
    and "logits \<noteq> []"
    and "length (actions trajd) = length logits"
    and "length adv' = length logits"
    and "\<forall>i<length logits. actions trajd ! i < length (logits ! i)"
  shows "A2CActorContinuous_loss policy_c c trajc adv net =
           Inr (- mean (map (\<lambda>i. (\<Sum>a<length (mu ! i).
                          normal_log_prob (mu ! i ! a) (sigma ! i ! a) (actions trajc ! i ! a)) * adv ! i)
                        [0..<length mu])
                - c * mean (map (\<lambda>i. \<Sum>a<length (mu ! i). normal_entropy (sigma ! i ! a))
                        [0..<length mu])) \<and>
         A2CActorDiscrete_loss policy_d c trajd adv' net =
           Inr (- mean (map (\<lambda>i. log_softmax (logits ! i) ! (actions trajd ! i) * adv' ! i)
                        [0..<length logits])
                - c * mean (map (\<lambda>i. categorical_entropy (logits ! i)) [0..<length logits])) \<and>
         (net = policy_function self \<and> c = c_entropy self \<longrightarrow>
            A2CActorContinuous_optimize step policy_c self trajc adv =
              Inr (self\<lparr>policy_function :=
                     step (A2CActorContinuous_loss policy_c (c_entropy self) trajc adv)
                       (policy_function self)\<rparr>) \<and>
            A2CActorDiscrete_optimize step policy_d self trajd adv' =
              Inr (self\<lparr>policy_function :=
                     step (A2CActorDiscrete_loss policy_d (c_entropy self) trajd adv')
                       (policy_function self)\<rparr>))"
proof -
  have cl: "A2CActorContinuous_loss policy_c c trajc adv net =
           Inr (- mean (map (\<lambda>i. (\<Sum>a<length (mu ! i).
                          normal_log_prob (mu ! i ! a) (sigma ! i ! a) (actions trajc ! i ! a)) * adv ! i)
                        [0..<length mu])
                - c * mean (map (\<lambda>i. \<Sum>a<length (mu ! i). normal_entropy (sigma ! i ! a))
                        [0..<length mu]))"
    using assms(1-5) by (rule continuous_loss_value)
  have dl: "A2CActorDiscrete_loss policy_d c trajd adv' net =
           Inr (- mean (map (\<lambda>i. log_softmax (logits ! i) ! (actions trajd ! i) * adv' ! i)
                        [0..<length logits])
                - c * mean (map (\<lambda>i. categorical_entropy (logits ! i)) [0..<length logits]))"
    using assms(6) assms(8-10) by (rule discrete_loss_value)
  show ?thesis
    using cl dl by (auto simp: A2CActorContinuous_optimize_def A2CActorDiscrete_optimize_def)
qed


text \<open>One sample with advantage 2 and \<open>c_entropy = 1/2\<close>: a standard normal policy with
  action 0, and a uniform policy over two actions with action 1.\<close>

theorem a2c_actor_optimize_loss_witness:
  "A2CActorContinuous_loss (\<lambda>net ob. ([[0]], [[1]])) (1 / 2)
     \<lparr>obs = (), actions = [[0 :: real]], rewards = [], dones = [], traj_length = 1\<rparr> [2] \<lparr>parameters = [], buffers = []\<rparr>
     = Inr (- (normal_log_prob 0 1 0 * 2) - 1 / 2 * normal_entropy 1) \<and>
   A2CActorDiscrete_loss (\<lambda>net ob. [[0, 0]]) (1 / 2)
     \<lparr>obs = (), actions = [1 :: nat], rewards = [], dones = [], traj_length = 1\<rparr> [2] \<lparr>parameters = [], buffers = []\<rparr>
     = Inr (- (log_softmax [0, 0] ! 1 * 2) - 1 / 2 * categorical_entropy [0, 0]) \<and>
   A2CActorContinuous_optimize (\<lambda>f n. n) (\<lambda>net ob. ([[0]], [[1]]))
     \<lparr>policy_function = \<lparr>parameters = [], buffers = []\<rparr>, c_entropy = 1 / 2\<rparr>
     \<lparr>obs = (), actions = [[0 :: real]], rewards = [], dones = [], traj_length = 1\<rparr> [2]
     = Inr \<lparr>policy_function = \<lparr>parameters = [], buffers = []\<rparr>, c_entropy = 1 / 2\<rparr>"
proof -
  have h1: "(\<lambda>net ob. ([[0]], [[1]])) \<lparr>parameters = [], buffers = []\<rparr> (obs \<lparr>obs = (), actions = [[0 :: real]], rewards = [], dones = [], traj_length = 1\<rparr>) = ([[0]], [[1]])"
    by simp
  have h2: "[[0 :: real]] \<noteq> []" by simp
  have h3: "map length [[1 :: real]] = map length [[0 :: real]]" by simp
  have h4: "map length (actions \<lparr>obs = (), actions = [[0 :: real]], rewards = [], dones = [], traj_length = 1\<rparr>) = map length [[0 :: real]]" by simp
  have h5: "length [2 :: real] = length [[0 :: real]]" by simp
  have h6: "(\<lambda>net ob. [[0, 0]]) \<lparr>parameters = [], buffers = []\<rparr> (obs \<lparr>obs = (), actions = [1 :: nat], rewards = [], dones = [], traj_length = 1\<rparr>) = [[0, 0]]"
    by simp
  have h7: "[[0, 0 :: real]] \<noteq> []" by simp
  have h8: "length (actions \<lparr>obs = (), actions = [1 :: nat], rewards = [], dones = [], traj_length = 1\<rparr>) = length [[0, 0 :: real]]" by simp
  have h9: "length [2 :: real] = length [[0, 0 :: real]]" by simp
  have h10: "\<forall>i<length [[0, 0 :: real]]. actions \<lparr>obs = (), actions = [1 :: nat], rewards = [], dones = [], traj_length = 1\<rparr> ! i < length ([[0, 0 :: real]] ! i)"
    by simp
  show ?thesis
    using a2c_actor_optimize_loss[where c = "1 / 2" and step = "\<lambda>f n. n"
        and self = "\<lparr>policy_function = \<lparr>parameters = [], buffers = []\<rparr>, c_entropy = 1 / 2\<rparr>",
        OF h1 h2 h3 h4 h5 h6 h7 h8 h9 h10]
    by (simp add: mean_def)
qed

section \<open>The critic's optimisation step\<close>

text \<open>Whatever the optimizer does to the live network, \<open>A2CValueCritic.optimize\<close>
  returns a critic whose target network is the one it started with.\<close>

lemma critic_optimize_target_unchanged:
  assumes "A2CValueCritic_optimize step forward self traj = Inr (l, self')"
  shows "target_v_function (a2cvalue self') = target_v_function (a2cvalue self)"
proof -
  obtain c where c: "critic forward self traj True = Inr c"
    using assms by (cases "critic forward self traj True") (simp_all add: A2CValueCritic_optimize_def)
  obtain o0 where o0: "first_obs (obs traj) = Inr o0"
    using assms c by (cases "first_obs (obs traj)") (simp_all add: A2CValueCritic_optimize_def)
  obtain e where e: "squared_error (A2CValue_value forward (a2cvalue self) o0 False) c = Inr e"
    using assms c o0
    by (cases "squared_error (A2CValue_value forward (a2cvalue self) o0 False) c")
       (simp_all add: A2CValueCritic_optimize_def)
  show ?thesis
    using assms c o0 e by (auto simp: A2CValueCritic_optimize_def Let_def)
qed

text \<open>
  Claim C2 asks the critic's \<open>optimize\<close> to soft-update the target network after the
  gradient step. On one episode of length 2, with live weight 1, target weight 2,
  \<open>tau = 1/2\<close> and an optimizer that leaves the live network as it is,
  \<open>A2CValueCritic.optimize\<close> computes the return 17 with the target network, the live
  value 10 at the first observation and the loss 49, and returns the critic unchanged: the
  target weight stays 2, where the soft update would make it 3/2.
  \<open>A2CValue.optimize\<close>, on the same observation and return, does perform that update.
\<close>

theorem critic_optimize_no_soft_update:
  "A2CValueCritic_optimize (\<lambda>f n. n) (\<lambda>net os. map (\<lambda>ob. hd (hd (parameters net)) * ob) os)
     \<lparr>a2cvalue = \<lparr>v_function = \<lparr>parameters = [[1]], buffers = []\<rparr>,
                       target_v_function = \<lparr>parameters = [[2]], buffers = []\<rparr>, tau = 1 / 2\<rparr>,
           gamma = 1 / 2\<rparr>
     \<lparr>obs = [[10 :: real, 20, 30]], actions = [[(), (), ()]], rewards = [[1, 2, 9]],
           dones = [[0, 0, 0]], traj_length = 2\<rparr>
     = Inr (49, \<lparr>a2cvalue = \<lparr>v_function = \<lparr>parameters = [[1]], buffers = []\<rparr>,
                       target_v_function = \<lparr>parameters = [[2]], buffers = []\<rparr>, tau = 1 / 2\<rparr>,
           gamma = 1 / 2\<rparr>) \<and>
   soft_update \<lparr>parameters = [[1]], buffers = []\<rparr> \<lparr>parameters = [[2]], buffers = []\<rparr> (1 / 2)
     = Inr \<lparr>parameters = [[3 / 2]], buffers = []\<rparr> \<and>
   A2CValue_optimize (\<lambda>f n. n) (\<lambda>net os. map (\<lambda>ob. hd (hd (parameters net)) * ob) os)
     \<lparr>v_function = \<lparr>parameters = [[1]], buffers = []\<rparr>,
           target_v_function = \<lparr>parameters = [[2]], buffers = []\<rparr>, tau = 1 / 2\<rparr> [10] [17]
     = Inr ([49], \<lparr>v_function = \<lparr>parameters = [[1]], buffers = []\<rparr>,
           target_v_function = \<lparr>parameters = [[3 / 2]], buffers = []\<rparr>, tau = 1 / 2\<rparr>)"
proof -
  have w: "wf_traj \<lparr>obs = [[10 :: real, 20, 30]], actions = [[(), (), ()]], rewards = [[1, 2, 9]],
           dones = [[0, 0, 0]], traj_length = 2\<rparr>"
    by (simp add: wf_traj_def)
  have c: "critic (\<lambda>net os. map (\<lambda>ob. hd (hd (parameters net)) * ob) os)
     \<lparr>a2cvalue = \<lparr>v_function = \<lparr>parameters = [[1]], buffers = []\<rparr>,
                       target_v_function = \<lparr>parameters = [[2]], buffers = []\<rparr>, tau = 1 / 2\<rparr>,
           gamma = 1 / 2\<rparr>
     \<lparr>obs = [[10 :: real, 20, 30]], actions = [[(), (), ()]], rewards = [[1, 2, 9]],
           dones = [[0, 0, 0]], traj_length = 2\<rparr> True = Inr [17]"
    using critic_char[OF w, of "(\<lambda>net os. map (\<lambda>ob. hd (hd (parameters net)) * ob) os)" "\<lparr>a2cvalue = \<lparr>v_function = \<lparr>parameters = [[1]], buffers = []\<rparr>,
                       target_v_function = \<lparr>parameters = [[2]], buffers = []\<rparr>, tau = 1 / 2\<rparr>,
           gamma = 1 / 2\<rparr>" True]
    by (simp add: A2CValue_value_def eval_nat_numeral)
  have su: "soft_update \<lparr>parameters = [[1]], buffers = []\<rparr> \<lparr>parameters = [[2]], buffers = []\<rparr> (1 / 2)
     = Inr \<lparr>parameters = [[3 / 2]], buffers = []\<rparr>"
    by (simp add: soft_update_def copy_buffer_def tensor_add_def)
  have o: "A2CValueCritic_optimize (\<lambda>f n. n) (\<lambda>net os. map (\<lambda>ob. hd (hd (parameters net)) * ob) os)
     \<lparr>a2cvalue = \<lparr>v_function = \<lparr>parameters = [[1]], buffers = []\<rparr>,
                       target_v_function = \<lparr>parameters = [[2]], buffers = []\<rparr>, tau = 1 / 2\<rparr>,
           gamma = 1 / 2\<rparr>
     \<lparr>obs = [[10 :: real, 20, 30]], actions = [[(), (), ()]], rewards = [[1, 2, 9]],
           dones = [[0, 0, 0]], traj_length = 2\<rparr>
     = Inr (49, \<lparr>a2cvalue = \<lparr>v_function = \<lparr>parameters = [[1]], buffers = []\<rparr>,
                       target_v_function = \<lparr>parameters = [[2]], buffers = []\<rparr>, tau = 1 / 2\<rparr>,
           gamma = 1 / 2\<rparr>)"
    by (simp add: A2CValueCritic_optimize_def c first_obs_def A2CValue_value_def squared_error_def mean_def)
  have v: "A2CValue_optimize (\<lambda>f n. n) (\<lambda>net os. map (\<lambda>ob. hd (hd (parameters net)) * ob) os)
     \<lparr>v_function = \<lparr>parameters = [[1]], buffers = []\<rparr>,
           target_v_function = \<lparr>parameters = [[2]], buffers = []\<rparr>, tau = 1 / 2\<rparr> [10] [17]
     = Inr ([49], \<lparr>v_function = \<lparr>parameters = [[1]], buffers = []\<rparr>,
           target_v_function = \<lparr>parameters = [[3 / 2]], buffers = []\<rparr>, tau = 1 / 2\<rparr>)"
    by (simp add: A2CValue_optimize_def squared_error_def su)
  show ?thesis using o su v by blast
qed

end
